theory Spec2Isabelle
  imports Main "HOL-Library.AList"
begin

section \<open>Shared values: errors, JavaScript values, configuration\<close>

text \<open>
  The error classes of \<^verbatim>\<open>errors/customErrors.js\<close> that the modelled code throws, each
  with its message.  \<open>PlainError\<close> is a JavaScript \<^verbatim>\<open>Error\<close> that is not a
  \<^verbatim>\<open>NotificationError\<close>.
\<close>

datatype error =
    ValidationError string
  | AuthenticationError string
  | QueueFullError string
  | PlainError string

text \<open>Decimal rendering of a number inside a template literal.\<close>

fun showNat :: "nat \<Rightarrow> string" where
  "showNat n =
     (if n < 10 then [char_of (48 + n)]
      else showNat (n div 10) @ [char_of (48 + n mod 10)])"

declare showNat.simps [simp del]

definition showInt :: "int \<Rightarrow> string" where
  "showInt i = (if i < 0 then CHR ''-'' # showNat (nat (- i)) else showNat (nat i))"

text \<open>
  The payload of a notification is an arbitrary JavaScript value; the code only tests
  whether it is truthy.  Numbers are integers here (no NaN, no fractions).
\<close>

datatype jsval =
    JUndefined
  | JNull
  | JBool bool
  | JNum int
  | JStr string
  | JObj "(string \<times> jsval) list"

fun truthy :: "jsval \<Rightarrow> bool" where
  "truthy JUndefined = False"
| "truthy JNull = False"
| "truthy (JBool b) = b"
| "truthy (JNum n) = (n \<noteq> 0)"
| "truthy (JStr s) = (s \<noteq> [])"
| "truthy (JObj kvs) = True"

text \<open>
  \<^verbatim>\<open>x || d\<close> on an optional number: \<open>None\<close> is \<^verbatim>\<open>undefined\<close>, and \<open>0\<close> is
  falsy as well.
\<close>

definition jsOr :: "int option \<Rightarrow> int \<Rightarrow> int" where
  "jsOr x d = (case x of None \<Rightarrow> d | Some v \<Rightarrow> if v = 0 then d else v)"

text \<open>The entries of \<^verbatim>\<open>config/config.js\<close> read by the modelled code.\<close>

record config =
  maxQueueSize :: int
  retryAttempts :: int
  retryDelay :: int
  batchSize :: int
  messageExpiry :: int
  maxClientsPerApiKey :: int

definition defaultConfig :: config where
  "defaultConfig =
     \<lparr> maxQueueSize = 10000, retryAttempts = 3, retryDelay = 1000, batchSize = 100,
       messageExpiry = 86400000, maxClientsPerApiKey = 1000 \<rparr>"

section \<open>The notification queue (\<^verbatim>\<open>services/notificationQueue.js\<close>)\<close>

text \<open>
  A notification as \<^verbatim>\<open>sendNotification\<close> builds it.  Of the metadata only the fields the
  code reads are kept.  An absent field of string type is the empty string (both are
  falsy); an absent priority is \<open>None\<close>, and a priority that is present is a
  number.
\<close>

record metadata =
  excludeConnection :: "string option"
  apiKey_m :: string
  timestamp :: int

record notification =
  id_n :: string
  channel :: string
  data :: jsval
  priority_n :: "int option"
  metadata :: metadata

record queueItem =
  id_q :: string
  notification :: notification
  priority :: int
  enqueuedAt :: int
  expiresAt :: int
  attempts :: nat

type_synonym queue = "queueItem list"

definition validateNotification :: "notification \<Rightarrow> error + unit" where
  "validateNotification n =
     (if id_n n = [] then Inl (ValidationError ''Notification must have an id'')
      else if channel n = [] then Inl (ValidationError ''Notification must have a channel'')
      else if \<not> truthy (data n) then Inl (ValidationError ''Notification must have data'')
      else case priority_n n of
             None \<Rightarrow> Inr ()
           | Some p \<Rightarrow>
               if p < 1 \<or> p > 10
               then Inl (ValidationError ''Priority must be a number between 1 and 10'')
               else Inr ())"

text \<open>
  The comparator handed to \<^verbatim>\<open>Array.prototype.sort\<close>: negative when \<open>a\<close> goes first.
\<close>

definition compareItems :: "queueItem \<Rightarrow> queueItem \<Rightarrow> int" where
  "compareItems a b =
     (if priority b \<noteq> priority a then priority b - priority a
      else enqueuedAt a - enqueuedAt b)"

text \<open>
  \<^verbatim>\<open>Array.prototype.sort\<close> is a stable sort (ECMAScript 2019); it is modelled by stable
  insertion sort under the comparator.
\<close>

fun insertSorted :: "queueItem \<Rightarrow> queue \<Rightarrow> queue" where
  "insertSorted x [] = [x]"
| "insertSorted x (y # ys) =
     (if compareItems x y \<le> 0 then x # y # ys else y # insertSorted x ys)"

definition sortQueue :: "queue \<Rightarrow> queue" where
  "sortQueue q = foldr insertSorted q []"

text \<open>
  The object literal of \<^verbatim>\<open>enqueue\<close>.  Both \<^verbatim>\<open>Date.now()\<close> readings of the literal are
  the one reading \<open>now\<close>.
\<close>

definition newQueueItem :: "config \<Rightarrow> int \<Rightarrow> notification \<Rightarrow> queueItem" where
  "newQueueItem cfg now n =
     \<lparr> id_q = id_n n, notification = n, priority = jsOr (priority_n n) 5,
       enqueuedAt = now, expiresAt = now + messageExpiry cfg, attempts = 0 \<rparr>"

text \<open>
  Every operation on the queue returns its result together with the queue it leaves
  behind; a thrown error is \<open>Inl\<close>.
\<close>

definition enqueue ::
  "config \<Rightarrow> int \<Rightarrow> notification \<Rightarrow> queue \<Rightarrow> (error + queueItem) \<times> queue" where
  "enqueue cfg now n q =
     (case validateNotification n of
        Inl e \<Rightarrow> (Inl e, q)
      | Inr _ \<Rightarrow>
          if int (length q) \<ge> maxQueueSize cfg
          then (Inl (QueueFullError
                  (''Queue size limit reached ('' @ showInt (maxQueueSize cfg) @ '')'')), q)
          else (Inr (newQueueItem cfg now n), sortQueue (q @ [newQueueItem cfg now n])))"

definition dequeue :: "int \<Rightarrow> queue \<Rightarrow> queueItem option \<times> queue" where
  "dequeue now q =
     (case filter (\<lambda>item. expiresAt item > now) q of
        [] \<Rightarrow> (None, [])
      | item # rest \<Rightarrow> (Some item, rest))"

text \<open>
  The loop of \<^verbatim>\<open>dequeueBatch\<close>: \<open>i\<close> is the loop index, \<open>k\<close> the number of iterations
  left, and \<open>clk i\<close> the reading of \<^verbatim>\<open>Date.now()\<close> in iteration \<open>i\<close>.
\<close>

fun batchLoop ::
  "(nat \<Rightarrow> int) \<Rightarrow> nat \<Rightarrow> nat \<Rightarrow> queue \<Rightarrow> queueItem list \<Rightarrow> queueItem list \<times> queue" where
  "batchLoop clk i 0 q batch = (batch, q)"
| "batchLoop clk i (Suc k) q batch =
     (case dequeue (clk i) q of
        (None, q') \<Rightarrow> batchLoop clk (Suc i) k q' batch
      | (Some item, q') \<Rightarrow> batchLoop clk (Suc i) k q' (batch @ [item]))"

definition dequeueBatch ::
  "config \<Rightarrow> (nat \<Rightarrow> int) \<Rightarrow> int option \<Rightarrow> queue \<Rightarrow> queueItem list \<times> queue" where
  "dequeueBatch cfg clk size_arg q =
     batchLoop clk 0 (nat (min (jsOr size_arg (batchSize cfg)) (int (length q)))) q []"

definition peek :: "queue \<Rightarrow> queueItem option" where
  "peek q = (case q of [] \<Rightarrow> None | item # _ \<Rightarrow> Some item)"

definition isEmpty :: "queue \<Rightarrow> bool" where
  "isEmpty q = (length q = 0)"

definition clear :: "queue \<Rightarrow> nat \<times> queue" where
  "clear q = (length q, [])"

text \<open>The body of the periodic cleanup job.\<close>

definition cleanupJob :: "int \<Rightarrow> queue \<Rightarrow> queue" where
  "cleanupJob now q = filter (\<lambda>item. expiresAt item > now) q"

text \<open>
  \<^verbatim>\<open>getStats\<close>.  The field \<^verbatim>\<open>utilizationPercent\<close>, a formatted floating-point number, is
  left out.  \<^verbatim>\<open>priorityDistribution\<close> is the object built by the loop, as an
  association list.
\<close>

record queueStats =
  size_s :: nat
  maxSize_s :: int
  priorityDistribution :: "(int \<times> nat) list"
  oldestMessage :: int

definition countPriority :: "(int \<times> nat) list \<Rightarrow> queueItem \<Rightarrow> (int \<times> nat) list" where
  "countPriority priorities item =
     AList.update (priority item)
       ((case map_of priorities (priority item) of None \<Rightarrow> 0 | Some c \<Rightarrow> c) + 1) priorities"

definition getStats :: "config \<Rightarrow> int \<Rightarrow> queue \<Rightarrow> queueStats" where
  "getStats cfg now q =
     \<lparr> size_s = length q, maxSize_s = maxQueueSize cfg,
       priorityDistribution = foldl countPriority [] q,
       oldestMessage = (if length q > 0 then now - enqueuedAt (q ! (length q - 1)) else 0) \<rparr>"

subsection \<open>Runs of the queue\<close>

text \<open>
  The calls a client of the queue can make, each with the clock readings it sees, and
  the queue a sequence of such calls leaves behind when started on the empty queue.
\<close>

datatype queueOp =
    Enqueue int notification
  | Dequeue int
  | DequeueBatch "nat \<Rightarrow> int" "int option"
  | Clear
  | Cleanup int

fun applyQueueOp :: "config \<Rightarrow> queue \<Rightarrow> queueOp \<Rightarrow> queue" where
  "applyQueueOp cfg q (Enqueue now n) = snd (enqueue cfg now n q)"
| "applyQueueOp cfg q (Dequeue now) = snd (dequeue now q)"
| "applyQueueOp cfg q (DequeueBatch clk size_arg) = snd (dequeueBatch cfg clk size_arg q)"
| "applyQueueOp cfg q Clear = snd (clear q)"
| "applyQueueOp cfg q (Cleanup now) = cleanupJob now q"

definition runQueue :: "config \<Rightarrow> queueOp list \<Rightarrow> queue" where
  "runQueue cfg ops = foldl (applyQueueOp cfg) [] ops"

text \<open>
  \<open>queueAt cfg t q\<close>: the queue \<open>q\<close> is what some sequence of calls, made at
  non-decreasing clock readings up to \<open>t\<close>, has left behind.
\<close>

inductive queueAt :: "config \<Rightarrow> int \<Rightarrow> queue \<Rightarrow> bool" for cfg :: config where
  queueAt_init: "queueAt cfg t []"
| queueAt_enqueue: "queueAt cfg t q \<Longrightarrow> t \<le> now \<Longrightarrow> queueAt cfg now (snd (enqueue cfg now n q))"
| queueAt_dequeue: "queueAt cfg t q \<Longrightarrow> t \<le> now \<Longrightarrow> queueAt cfg now (snd (dequeue now q))"
| queueAt_dequeueBatch:
    "queueAt cfg t q \<Longrightarrow> t \<le> now \<Longrightarrow> queueAt cfg now (snd (dequeueBatch cfg clk size_arg q))"
| queueAt_cleanup: "queueAt cfg t q \<Longrightarrow> t \<le> now \<Longrightarrow> queueAt cfg now (cleanupJob now q)"
| queueAt_clear: "queueAt cfg t q \<Longrightarrow> queueAt cfg t (snd (clear q))"

text \<open>
  Enqueueing a list of notifications, each at its own clock reading; \<open>None\<close> when one
  of them is refused.
\<close>

fun enqueueAll :: "config \<Rightarrow> (int \<times> notification) list \<Rightarrow> queue \<Rightarrow> queue option" where
  "enqueueAll cfg [] q = Some q"
| "enqueueAll cfg ((now, n) # rest) q =
     (case enqueue cfg now n q of
        (Inl e, q') \<Rightarrow> None
      | (Inr item, q') \<Rightarrow> enqueueAll cfg rest q')"

text \<open>
  The order the comparator describes, and the invariant of the queue at clock reading
  \<open>t\<close>: it is in that order and no item was enqueued after \<open>t\<close>.
\<close>

definition ordered :: "queue \<Rightarrow> bool" where
  "ordered q = sorted_wrt (\<lambda>a b. compareItems a b \<le> 0) q"

definition queueInv :: "int \<Rightarrow> queue \<Rightarrow> bool" where
  "queueInv t q \<longleftrightarrow> ordered q \<and> (\<forall>y\<in>set q. enqueuedAt y \<le> t)"

section \<open>The connection registry (\<^verbatim>\<open>services/clientManager.js\<close>)\<close>

text \<open>
  A JavaScript \<^verbatim>\<open>Set\<close> of strings is the list of its members in insertion order;
  \<^verbatim>\<open>add\<close> leaves a set that already has the member as it is.
\<close>

definition Set_add :: "string \<Rightarrow> string list \<Rightarrow> string list" where
  "Set_add x xs = (if x \<in> set xs then xs else xs @ [x])"

definition Set_delete :: "string \<Rightarrow> string list \<Rightarrow> string list" where
  "Set_delete x xs = removeAll x xs"

definition Set_size :: "string list \<Rightarrow> nat" where
  "Set_size xs = length (remdups xs)"

text \<open>
  A JavaScript \<^verbatim>\<open>Map\<close> is an association list in insertion order: \<^verbatim>\<open>set\<close> is
  \<^const>\<open>AList.update\<close> (an existing key keeps its place), \<^verbatim>\<open>delete\<close> is
  \<^const>\<open>AList.delete\<close>, \<^verbatim>\<open>get\<close> is \<^const>\<open>map_of\<close>.  Every \<^verbatim>\<open>new Date()\<close> is the
  clock reading \<open>now\<close> handed to the operation.  The writes to the database are left
  out.
\<close>

record keyStats =
  totalConnections :: nat
  totalNotifications :: nat
  lastActivity :: int

record keyData =
  name :: string
  userId :: "string option"
  createdAt :: int
  connections :: "string list"
  stats :: keyStats

record connection =
  apiKey :: string
  channels :: "string list"
  connectedAt :: int

record clientManager =
  apiKeys :: "(string \<times> keyData) list"
  connections_m :: "(string \<times> connection) list"

text \<open>
  \<^verbatim>\<open>#loadFromDatabase\<close>: every stored key starts with an empty connection set; the
  constructor leaves the connection map empty.
\<close>

definition loadFromDatabase :: "(string \<times> keyData) list \<Rightarrow> clientManager" where
  "loadFromDatabase db =
     \<lparr> apiKeys = foldl (\<lambda>m (k, d). AList.update k (d\<lparr>connections := []\<rparr>) m) [] db,
       connections_m = [] \<rparr>"

text \<open>
  \<^verbatim>\<open>generateApiKey\<close>; the key drawn from \<^verbatim>\<open>randomBytes\<close> is the argument \<open>k\<close>.
\<close>

definition generateApiKey ::
  "int \<Rightarrow> string \<Rightarrow> string \<Rightarrow> string option \<Rightarrow> clientManager \<Rightarrow> (error + string) \<times> clientManager" where
  "generateApiKey now k clientName uid st =
     (if clientName = [] then (Inl (ValidationError ''Client name is required''), st)
      else (Inr k,
            st\<lparr>apiKeys :=
                 AList.update k
                   \<lparr> name = clientName, userId = uid, createdAt = now, connections = [],
                     stats = \<lparr> totalConnections = 0, totalNotifications = 0,
                               lastActivity = now \<rparr> \<rparr>
                   (apiKeys st)\<rparr>))"

definition validateApiKey :: "clientManager \<Rightarrow> string \<Rightarrow> error + bool" where
  "validateApiKey st k =
     (if k = [] then Inl (AuthenticationError ''Invalid API key format'')
      else if map_of (apiKeys st) k = None then Inl (AuthenticationError ''Invalid API key'')
      else Inr True)"

definition registerConnection ::
  "config \<Rightarrow> int \<Rightarrow> string \<Rightarrow> string \<Rightarrow> clientManager \<Rightarrow> (error + bool) \<times> clientManager" where
  "registerConnection cfg now connectionId k st =
     (case validateApiKey st k of
        Inl e \<Rightarrow> (Inl e, st)
      | Inr _ \<Rightarrow>
          (case map_of (apiKeys st) k of
             None \<Rightarrow> (Inl (PlainError ''Cannot read properties of undefined''), st)
           | Some client \<Rightarrow>
               if int (Set_size (connections client)) \<ge> maxClientsPerApiKey cfg
               then (Inl (ValidationError
                       (''Maximum connections ('' @ showInt (maxClientsPerApiKey cfg)
                          @ '') reached for this API key'')), st)
               else (Inr True,
                     st\<lparr>apiKeys :=
                          AList.update k
                            (client\<lparr>connections := Set_add connectionId (connections client),
                                    stats := (stats client)
                                      \<lparr>totalConnections := totalConnections (stats client) + 1,
                                       lastActivity := now\<rparr>\<rparr>)
                            (apiKeys st),
                        connections_m :=
                          AList.update connectionId
                            \<lparr> apiKey = k, channels = [], connectedAt = now \<rparr>
                            (connections_m st)\<rparr>)))"

definition unregisterConnection :: "string \<Rightarrow> clientManager \<Rightarrow> bool \<times> clientManager" where
  "unregisterConnection connectionId st =
     (case map_of (connections_m st) connectionId of
        None \<Rightarrow> (False, st)
      | Some conn \<Rightarrow>
          (True,
           st\<lparr>apiKeys :=
                (case map_of (apiKeys st) (apiKey conn) of
                   None \<Rightarrow> apiKeys st
                 | Some client \<Rightarrow>
                     AList.update (apiKey conn)
                       (client\<lparr>connections := Set_delete connectionId (connections client)\<rparr>)
                       (apiKeys st)),
              connections_m := AList.delete connectionId (connections_m st)\<rparr>))"

definition subscribeToChannel ::
  "string \<Rightarrow> string \<Rightarrow> clientManager \<Rightarrow> (error + bool) \<times> clientManager" where
  "subscribeToChannel connectionId ch st =
     (case map_of (connections_m st) connectionId of
        None \<Rightarrow> (Inl (ValidationError ''Connection not found''), st)
      | Some conn \<Rightarrow>
          if ch = [] then (Inl (ValidationError ''Invalid channel name''), st)
          else (Inr True,
                st\<lparr>connections_m :=
                     AList.update connectionId (conn\<lparr>channels := Set_add ch (channels conn)\<rparr>)
                       (connections_m st)\<rparr>))"

definition unsubscribeFromChannel :: "string \<Rightarrow> string \<Rightarrow> clientManager \<Rightarrow> bool \<times> clientManager" where
  "unsubscribeFromChannel connectionId ch st =
     (case map_of (connections_m st) connectionId of
        None \<Rightarrow> (False, st)
      | Some conn \<Rightarrow>
          (True,
           st\<lparr>connections_m :=
                AList.update connectionId (conn\<lparr>channels := Set_delete ch (channels conn)\<rparr>)
                  (connections_m st)\<rparr>))"

definition getConnectionsByChannel :: "clientManager \<Rightarrow> string \<Rightarrow> string list" where
  "getConnectionsByChannel st ch =
     map fst (filter (\<lambda>(connectionId, conn). ch \<in> set (channels conn)) (connections_m st))"

definition getConnectionInfo :: "clientManager \<Rightarrow> string \<Rightarrow> connection option" where
  "getConnectionInfo st connectionId = map_of (connections_m st) connectionId"

definition updateNotificationStats :: "int \<Rightarrow> string \<Rightarrow> clientManager \<Rightarrow> clientManager" where
  "updateNotificationStats now k st =
     (case map_of (apiKeys st) k of
        None \<Rightarrow> st
      | Some client \<Rightarrow>
          st\<lparr>apiKeys :=
               AList.update k
                 (client\<lparr>stats := (stats client)
                           \<lparr>totalNotifications := totalNotifications (stats client) + 1,
                            lastActivity := now\<rparr>\<rparr>)
                 (apiKeys st)\<rparr>)"

definition revokeApiKey :: "string \<Rightarrow> clientManager \<Rightarrow> (error + bool) \<times> clientManager" where
  "revokeApiKey k st =
     (case map_of (apiKeys st) k of
        None \<Rightarrow> (Inl (ValidationError ''API key not found''), st)
      | Some client \<Rightarrow>
          (Inr True,
           st\<lparr>connections_m :=
                foldl (\<lambda>m connectionId. AList.delete connectionId m) (connections_m st)
                  (connections client),
              apiKeys := AList.delete k (apiKeys st)\<rparr>))"

subsection \<open>Reachable states of the registry\<close>

text \<open>
  The states of the registry: what \<^verbatim>\<open>#loadFromDatabase\<close> builds, and what the operations
  make of a reachable state, whether they succeed or throw.  A generated API key is new
  (it is drawn from 32 random bytes).
\<close>

inductive reachableManager :: "config \<Rightarrow> clientManager \<Rightarrow> bool" for cfg :: config where
  reach_load: "reachableManager cfg (loadFromDatabase db)"
| reach_generate:
    "reachableManager cfg st \<Longrightarrow> map_of (apiKeys st) k = None \<Longrightarrow>
     reachableManager cfg (snd (generateApiKey now k clientName uid st))"
| reach_register:
    "reachableManager cfg st \<Longrightarrow>
     reachableManager cfg (snd (registerConnection cfg now connectionId k st))"
| reach_unregister:
    "reachableManager cfg st \<Longrightarrow> reachableManager cfg (snd (unregisterConnection connectionId st))"
| reach_subscribe:
    "reachableManager cfg st \<Longrightarrow> reachableManager cfg (snd (subscribeToChannel connectionId ch st))"
| reach_unsubscribe:
    "reachableManager cfg st \<Longrightarrow>
     reachableManager cfg (snd (unsubscribeFromChannel connectionId ch st))"
| reach_stats:
    "reachableManager cfg st \<Longrightarrow> reachableManager cfg (updateNotificationStats now k st)"
| reach_revoke:
    "reachableManager cfg st \<Longrightarrow> reachableManager cfg (snd (revokeApiKey k st))"

text \<open>
  The invariant of the reachable states: the connection map has one entry per
  connection id, and every connection in it is in the connection set of the API key
  recorded for it.
\<close>

definition owned :: "clientManager \<Rightarrow> bool" where
  "owned st \<longleftrightarrow>
     (\<forall>c conn. map_of (connections_m st) c = Some conn \<longrightarrow>
        (\<exists>client. map_of (apiKeys st) (apiKey conn) = Some client \<and>
                  c \<in> set (connections client)))"

definition managerInv :: "clientManager \<Rightarrow> bool" where
  "managerInv st \<longleftrightarrow> distinct (map fst (connections_m st)) \<and> owned st"

section \<open>The protocol of one connection (\<^verbatim>\<open>websocket/wsServer.js\<close>)\<close>

text \<open>
  A socket is its ready state, the messages sent on it so far (oldest first) and the
  heartbeat flag.  \<^verbatim>\<open>send\<close> on an open socket is taken to succeed.  \<^verbatim>\<open>close()\<close> starts
  the closing handshake, so the socket is no longer open afterwards.
\<close>

datatype readyState = CONNECTING | OPEN | CLOSING | CLOSED

datatype serverMessage =
    Connected string string
  | Authenticated bool string
  | Subscribed bool string string
  | Unsubscribed bool string string
  | Pong int
  | NotificationMessage string string jsval int
  | ErrorMessage string string string "int option"

record webSocket =
  readyState :: readyState
  sent :: "serverMessage list"
  isAlive :: bool

text \<open>
  The messages a client sends, after \<^verbatim>\<open>JSON.parse\<close>.  An absent \<^verbatim>\<open>apiKey\<close> or
  \<^verbatim>\<open>channel\<close> is the empty string; \<open>Other t\<close> is any other \<^verbatim>\<open>type\<close>.
\<close>

datatype clientMessage =
    Authenticate string
  | Subscribe string
  | Unsubscribe string
  | Ping
  | Other string

text \<open>The variables \<^verbatim>\<open>apiKey\<close> and \<^verbatim>\<open>isAuthenticated\<close> of the closure of one connection.\<close>

record handlerState =
  apiKey_h :: "string option"
  isAuthenticated :: bool

fun message :: "error \<Rightarrow> string" where
  "message (ValidationError m) = m"
| "message (AuthenticationError m) = m"
| "message (QueueFullError m) = m"
| "message (PlainError m) = m"

text \<open>
  What \<^verbatim>\<open>ErrorHandler.handleWebSocketError\<close> serialises: \<^verbatim>\<open>toJSON()\<close> of a
  \<^verbatim>\<open>NotificationError\<close> (name, message, code, status code), and a generic object for any
  other error.
\<close>

fun errorMessage :: "error \<Rightarrow> serverMessage" where
  "errorMessage (ValidationError m) = ErrorMessage ''ValidationError'' m ''VALIDATION_ERROR'' (Some 400)"
| "errorMessage (AuthenticationError m) =
     ErrorMessage ''AuthenticationError'' m ''AUTHENTICATION_ERROR'' (Some 401)"
| "errorMessage (QueueFullError m) = ErrorMessage ''QueueFullError'' m ''QUEUE_FULL_ERROR'' (Some 503)"
| "errorMessage (PlainError m) =
     ErrorMessage ''WebSocketError'' (if m = [] then ''WebSocket error occurred'' else m)
       ''WEBSOCKET_ERROR'' None"

definition sendMessage :: "webSocket \<Rightarrow> serverMessage \<Rightarrow> webSocket" where
  "sendMessage ws m = (if readyState ws = OPEN then ws\<lparr>sent := sent ws @ [m]\<rparr> else ws)"

definition close :: "webSocket \<Rightarrow> webSocket" where
  "close ws = (if readyState ws = CLOSED then ws else ws\<lparr>readyState := CLOSING\<rparr>)"

definition handleWebSocketError :: "error \<Rightarrow> webSocket \<Rightarrow> webSocket" where
  "handleWebSocketError e ws =
     (if readyState ws = OPEN then ws\<lparr>sent := sent ws @ [errorMessage e]\<rparr> else ws)"

text \<open>
  The handlers return the error they throw, if any, with the socket and the registry as
  they are at that moment.
\<close>

definition handleAuthenticate ::
  "config \<Rightarrow> int \<Rightarrow> webSocket \<Rightarrow> string \<Rightarrow> string \<Rightarrow> clientManager
     \<Rightarrow> error option \<times> webSocket \<times> clientManager" where
  "handleAuthenticate cfg now ws k connectionId st =
     (case validateApiKey st k of
        Inl e \<Rightarrow> (Some e, close (sendMessage ws (Authenticated False (message e))), st)
      | Inr _ \<Rightarrow>
          (case registerConnection cfg now connectionId k st of
             (Inl e, st') \<Rightarrow>
               (Some e, close (sendMessage ws (Authenticated False (message e))), st')
           | (Inr _, st') \<Rightarrow>
               (None, sendMessage ws (Authenticated True ''Successfully authenticated''), st')))"

definition handleSubscribe ::
  "webSocket \<Rightarrow> string \<Rightarrow> string \<Rightarrow> clientManager \<Rightarrow> error option \<times> webSocket \<times> clientManager" where
  "handleSubscribe ws ch connectionId st =
     (case subscribeToChannel connectionId ch st of
        (Inl e, st') \<Rightarrow> (Some e, sendMessage ws (Subscribed False ch (message e)), st')
      | (Inr _, st') \<Rightarrow>
          (None, sendMessage ws (Subscribed True ch (''Subscribed to channel: '' @ ch)), st'))"

definition handleUnsubscribe ::
  "webSocket \<Rightarrow> string \<Rightarrow> string \<Rightarrow> clientManager \<Rightarrow> error option \<times> webSocket \<times> clientManager" where
  "handleUnsubscribe ws ch connectionId st =
     (case unsubscribeFromChannel connectionId ch st of
        (_, st') \<Rightarrow>
          (None, sendMessage ws (Unsubscribed True ch (''Unsubscribed from channel: '' @ ch)), st'))"

fun handleMessage ::
  "config \<Rightarrow> int \<Rightarrow> webSocket \<Rightarrow> clientMessage \<Rightarrow> string \<Rightarrow> string option \<Rightarrow> bool \<Rightarrow> clientManager
     \<Rightarrow> error option \<times> webSocket \<times> clientManager" where
  "handleMessage cfg now ws (Authenticate k) connectionId key authed st =
     handleAuthenticate cfg now ws k connectionId st"
| "handleMessage cfg now ws (Subscribe ch) connectionId key authed st =
     (if \<not> authed then (Some (AuthenticationError ''Not authenticated''), ws, st)
      else handleSubscribe ws ch connectionId st)"
| "handleMessage cfg now ws (Unsubscribe ch) connectionId key authed st =
     (if \<not> authed then (Some (AuthenticationError ''Not authenticated''), ws, st)
      else handleUnsubscribe ws ch connectionId st)"
| "handleMessage cfg now ws Ping connectionId key authed st = (None, sendMessage ws (Pong now), st)"
| "handleMessage cfg now ws (Other t) connectionId key authed st =
     (Some (ValidationError (''Unknown message type: '' @ t)), ws, st)"

text \<open>
  The \<^verbatim>\<open>message\<close> listener that \<^verbatim>\<open>#handleConnection\<close> installs for the connection
  \<open>connectionId\<close>: it runs \<^verbatim>\<open>#handleMessage\<close>, then records the authentication in the
  closure, and hands a thrown error to \<^verbatim>\<open>handleWebSocketError\<close>.  One message is handled
  to the end before the next.
\<close>

definition onMessage ::
  "config \<Rightarrow> int \<Rightarrow> string \<Rightarrow> clientMessage \<Rightarrow> handlerState \<times> webSocket \<times> clientManager
     \<Rightarrow> handlerState \<times> webSocket \<times> clientManager" where
  "onMessage cfg now connectionId msg s =
     (case s of (h, ws, st) \<Rightarrow>
        (case handleMessage cfg now ws msg connectionId (apiKey_h h) (isAuthenticated h) st of
           (None, ws', st') \<Rightarrow>
             (case msg of
                Authenticate k \<Rightarrow>
                  if \<not> isAuthenticated h
                  then (h\<lparr>isAuthenticated := True, apiKey_h := Some k\<rparr>, ws', st')
                  else (h, ws', st')
              | _ \<Rightarrow> (h, ws', st'))
         | (Some e, ws', st') \<Rightarrow> (h, handleWebSocketError e ws', st')))"

section \<open>The delivery engine (\<^verbatim>\<open>NotificationService\<close>)\<close>

text \<open>
  The state the service works on: the two singletons, the map of sockets of the WebSocket
  server (\<open>None\<close> until \<^verbatim>\<open>setWebSocketServer\<close> is called), the \<^verbatim>\<open>#processing\<close> flag, the
  clock that \<^verbatim>\<open>Date.now()\<close> reads, and the entries written to the logger by
  \<^verbatim>\<open>#processNotification\<close>.  \<^verbatim>\<open>#sleep(ms)\<close> advances the clock by \<open>ms\<close>; nothing else
  does.
\<close>

datatype logEntry =
    NoConnectionsForChannel string string
  | NotificationProcessed string nat nat nat
  | ErrorProcessingNotification string nat string

record service =
  clientManager :: clientManager
  notificationQueue :: queue
  wsServer :: "(string \<times> webSocket) list option"
  processing :: bool
  clock :: int
  logged :: "logEntry list"

text \<open>The argument of \<^verbatim>\<open>sendNotification\<close>.\<close>

record submission =
  channel_s :: string
  data_s :: jsval
  priority_s :: "int option"
  apiKey_s :: string
  excludeConnection_s :: "string option"

record sendResult =
  success :: bool
  notificationId :: string

text \<open>
  \<^verbatim>\<open>sendNotification\<close> up to and including its call of \<^verbatim>\<open>#startProcessing\<close>, which sets
  the flag; the loop this starts is \<open>processQueue\<close> below.  \<open>newId\<close> is the value of
  \<^verbatim>\<open>uuidv4()\<close>.  The field \<^verbatim>\<open>queueSize\<close> of the result, read after the loop has
  started, is left out.
\<close>

definition sendNotification ::
  "config \<Rightarrow> string \<Rightarrow> submission \<Rightarrow> service \<Rightarrow> (error + sendResult) \<times> service" where
  "sendNotification cfg newId sub s =
     (case validateApiKey (clientManager s) (apiKey_s sub) of
        Inl e \<Rightarrow> (Inl e, s)
      | Inr _ \<Rightarrow>
          if channel_s sub = [] then (Inl (ValidationError ''Channel is required''), s)
          else if \<not> truthy (data_s sub) then (Inl (ValidationError ''Data is required''), s)
          else
            (case enqueue cfg (clock s)
                    \<lparr> id_n = newId, channel = channel_s sub, data = data_s sub,
                      priority_n = Some (jsOr (priority_s sub) 5),
                      metadata = \<lparr> excludeConnection = excludeConnection_s sub,
                                   apiKey_m = apiKey_s sub, timestamp = clock s \<rparr> \<rparr>
                    (notificationQueue s) of
               (Inl e, q') \<Rightarrow> (Inl e, s\<lparr>notificationQueue := q'\<rparr>)
             | (Inr item, q') \<Rightarrow>
                 (Inr \<lparr> success = True, notificationId = newId \<rparr>,
                  s\<lparr>notificationQueue := q',
                    clientManager :=
                      updateNotificationStats (clock s) (apiKey_s sub) (clientManager s),
                    processing := True\<rparr>)))"

text \<open>
  \<^verbatim>\<open>sendToConnection\<close>: throws when no WebSocket server is set, and otherwise reports
  whether the notification was written to the socket.
\<close>

definition sendToConnection ::
  "string \<Rightarrow> notification \<Rightarrow> (string \<times> webSocket) list option
     \<Rightarrow> error + (bool \<times> (string \<times> webSocket) list)" where
  "sendToConnection connectionId n server =
     (case server of
        None \<Rightarrow> Inl (PlainError ''WebSocket server not initialized'')
      | Some clients \<Rightarrow>
          (case map_of clients connectionId of
             None \<Rightarrow> Inr (False, clients)
           | Some client \<Rightarrow>
               if readyState client \<noteq> OPEN then Inr (False, clients)
               else Inr (True,
                      AList.update connectionId
                        (client\<lparr>sent := sent client @
                            [NotificationMessage (id_n n) (channel n) (data n)
                               (timestamp (metadata n))]\<rparr>)
                        clients)))"

text \<open>
  The loop of \<^verbatim>\<open>#processNotification\<close> over the subscribed connections; \<open>results\<close>
  collects the \<^verbatim>\<open>success\<close> flags.  An error thrown by \<^verbatim>\<open>sendToConnection\<close> ends it.
\<close>

fun sendLoop ::
  "notification \<Rightarrow> string list \<Rightarrow> (string \<times> webSocket) list option \<Rightarrow> bool list
     \<Rightarrow> error + (bool list \<times> (string \<times> webSocket) list option)" where
  "sendLoop n [] server results = Inr (results, server)"
| "sendLoop n (connectionId # rest) server results =
     (if excludeConnection (metadata n) = Some connectionId \<and> connectionId \<noteq> []
      then sendLoop n rest server results
      else (case sendToConnection connectionId n server of
              Inl e \<Rightarrow> Inl e
            | Inr (ok, clients) \<Rightarrow> sendLoop n rest (Some clients) (results @ [ok])))"

text \<open>
  \<^verbatim>\<open>#processNotification\<close>.  The \<^verbatim>\<open>catch\<close> block logs the error and, while the attempts
  of the item are below the retry cap, sleeps and calls \<^verbatim>\<open>enqueue\<close> on the notification
  again; an error of that \<^verbatim>\<open>enqueue\<close> leaves the function, and is returned.  The
  statement \<^verbatim>\<open>item.attempts++\<close> changes the item that was dequeued, which nothing reads
  afterwards.
\<close>

definition processNotification :: "config \<Rightarrow> queueItem \<Rightarrow> service \<Rightarrow> error option \<times> service" where
  "processNotification cfg item s =
     (let n = notification item;
          conns = getConnectionsByChannel (clientManager s) (channel n)
      in if length conns = 0
         then (None, s\<lparr>logged := logged s @ [NoConnectionsForChannel (channel n) (id_n n)]\<rparr>)
         else
           (case sendLoop n conns (wsServer s) [] of
              Inr (results, server) \<Rightarrow>
                (None,
                 s\<lparr>wsServer := server,
                   logged := logged s @
                     [NotificationProcessed (id_n n) (length (filter (\<lambda>r. r) results))
                        (length (filter (\<lambda>r. \<not> r) results)) (length conns)]\<rparr>)
            | Inl e \<Rightarrow>
                (let s1 = s\<lparr>logged := logged s @
                            [ErrorProcessingNotification (id_n n) (attempts item + 1) (message e)]\<rparr>
                 in if int (attempts item) < retryAttempts cfg
                    then (let s2 = s1\<lparr>clock := clock s1 + retryDelay cfg\<rparr>
                          in case enqueue cfg (clock s2) n (notificationQueue s2) of
                               (Inl e', q') \<Rightarrow> (Some e', s2\<lparr>notificationQueue := q'\<rparr>)
                             | (Inr _, q') \<Rightarrow> (None, s2\<lparr>notificationQueue := q'\<rparr>))
                    else (None, s1))))"

text \<open>The \<^verbatim>\<open>for\<close> loop of \<^verbatim>\<open>#processQueue\<close> over one batch.\<close>

fun processBatch :: "config \<Rightarrow> queueItem list \<Rightarrow> service \<Rightarrow> error option \<times> service" where
  "processBatch cfg [] s = (None, s)"
| "processBatch cfg (item # rest) s =
     (case processNotification cfg item s of
        (Some e, s') \<Rightarrow> (Some e, s')
      | (None, s') \<Rightarrow> processBatch cfg rest s')"

text \<open>
  One round of the \<^verbatim>\<open>while\<close> loop of \<^verbatim>\<open>#processQueue\<close>: a batch is taken from the
  queue and processed.
\<close>

definition processRound :: "config \<Rightarrow> service \<Rightarrow> error option \<times> service" where
  "processRound cfg s =
     (case dequeueBatch cfg (\<lambda>_. clock s) None (notificationQueue s) of
        (batch, q') \<Rightarrow> processBatch cfg batch (s\<lparr>notificationQueue := q'\<rparr>))"

text \<open>
  \<^verbatim>\<open>#processQueue\<close>, with fuel for its \<^verbatim>\<open>while\<close> loop: \<open>None\<close> when the loop is still
  running after \<open>fuel\<close> rounds.  The loop ends when the queue is empty, clearing the
  flag, or when a round throws, leaving the flag set.
\<close>

fun processQueue :: "nat \<Rightarrow> config \<Rightarrow> service \<Rightarrow> service option" where
  "processQueue 0 cfg s = None"
| "processQueue (Suc fuel) cfg s =
     (if isEmpty (notificationQueue s) then Some (s\<lparr>processing := False\<rparr>)
      else (case processRound cfg s of
              (Some e, s') \<Rightarrow> Some s'
            | (None, s') \<Rightarrow> processQueue fuel cfg (s'\<lparr>clock := clock s' + 10\<rparr>)))"

text \<open>The state of the service when the loop has made \<open>n\<close> rounds, or has ended before.\<close>

fun afterRounds :: "nat \<Rightarrow> config \<Rightarrow> service \<Rightarrow> service" where
  "afterRounds 0 cfg s = s"
| "afterRounds (Suc n) cfg s =
     (if isEmpty (notificationQueue s) then s\<lparr>processing := False\<rparr>
      else (case processRound cfg s of
              (Some e, s') \<Rightarrow> s'
            | (None, s') \<Rightarrow> afterRounds n cfg (s'\<lparr>clock := clock s' + 10\<rparr>)))"

section \<open>Example inputs and states\<close>

subsection \<open>Notifications and queues\<close>

text \<open>Two notifications of priority 5 and the queue after enqueueing them one second apart.\<close>

definition note1 :: notification where
  "note1 = \<lparr> id_n = ''n1'', channel = ''updates'', data = JStr ''first'', priority_n = Some 5,
             metadata = \<lparr> excludeConnection = None, apiKey_m = ''key-A'', timestamp = 1000 \<rparr> \<rparr>"

definition note2 :: notification where
  "note2 = \<lparr> id_n = ''n2'', channel = ''updates'', data = JStr ''second'', priority_n = Some 5,
             metadata = \<lparr> excludeConnection = None, apiKey_m = ''key-A'', timestamp = 2000 \<rparr> \<rparr>"

definition twoItemQueue :: queue where
  "twoItemQueue = runQueue defaultConfig [Enqueue 1000 note1, Enqueue 2000 note2]"

text \<open>A third notification, of priority 9, submitted last.\<close>

definition note3 :: notification where
  "note3 = \<lparr> id_n = ''n3'', channel = ''alerts'', data = JStr ''urgent'', priority_n = Some 9,
             metadata = \<lparr> excludeConnection = None, apiKey_m = ''key-A'', timestamp = 3000 \<rparr> \<rparr>"

definition threeSubmissions :: "(int \<times> notification) list" where
  "threeSubmissions = [(1000, note1), (2000, note2), (3000, note3)]"

definition threeItemQueue :: queue where
  "threeItemQueue =
     [newQueueItem defaultConfig 3000 note3, newQueueItem defaultConfig 1000 note1,
      newQueueItem defaultConfig 2000 note2]"

text \<open>A configuration whose queue holds two items.\<close>

definition smallConfig :: config where
  "smallConfig = defaultConfig \<lparr> maxQueueSize := 2 \<rparr>"

subsection \<open>States of the registry and of the service\<close>

text \<open>
  A registry with two API keys, and a connection \<open>c1\<close> that authenticates with the
  first key and then sends a second \<^verbatim>\<open>authenticate\<close> message with the other key.
\<close>

definition exampleDb :: "(string \<times> keyData) list" where
  "exampleDb =
     [(''key-A'', \<lparr> name = ''alpha'', userId = None, createdAt = 0, connections = [],
                   stats = \<lparr> totalConnections = 0, totalNotifications = 0, lastActivity = 0 \<rparr> \<rparr>),
      (''key-B'', \<lparr> name = ''beta'', userId = None, createdAt = 0, connections = [],
                   stats = \<lparr> totalConnections = 0, totalNotifications = 0, lastActivity = 0 \<rparr> \<rparr>)]"

definition freshSocket :: webSocket where
  "freshSocket = \<lparr> readyState = OPEN, sent = [], isAlive = True \<rparr>"

definition freshHandler :: handlerState where
  "freshHandler = \<lparr> apiKey_h = None, isAuthenticated = False \<rparr>"

definition connected0 :: "handlerState \<times> webSocket \<times> clientManager" where
  "connected0 = (freshHandler, freshSocket, loadFromDatabase exampleDb)"

definition authenticatedOnce :: "handlerState \<times> webSocket \<times> clientManager" where
  "authenticatedOnce = onMessage defaultConfig 1000 ''c1'' (Authenticate ''key-A'') connected0"

definition authenticatedTwice :: "handlerState \<times> webSocket \<times> clientManager" where
  "authenticatedTwice =
     onMessage defaultConfig 2000 ''c1'' (Authenticate ''key-B'') authenticatedOnce"

text \<open>
  A registry in which \<open>c1\<close>, authenticated with the first key, is subscribed to the
  channel \<open>updates\<close>; and a service on it that has no WebSocket server set and has
  accepted one notification for that channel.
\<close>

definition subscribedManager :: clientManager where
  "subscribedManager =
     snd (subscribeToChannel ''c1'' ''updates''
            (snd (registerConnection defaultConfig 1000 ''c1'' ''key-A''
                    (loadFromDatabase exampleDb))))"

definition updateSubmission :: submission where
  "updateSubmission =
     \<lparr> channel_s = ''updates'', data_s = JObj [(''title'', JStr ''x'')], priority_s = Some 8,
       apiKey_s = ''key-A'', excludeConnection_s = None \<rparr>"

definition idleService :: service where
  "idleService =
     \<lparr> clientManager = subscribedManager, notificationQueue = [], wsServer = None,
       processing = False, clock = 2000, logged = [] \<rparr>"

definition startedService :: service where
  "startedService = snd (sendNotification defaultConfig ''n1'' updateSubmission idleService)"

text \<open>The notification that \<open>startedService\<close> has accepted.\<close>

definition acceptedNotification :: notification where
  "acceptedNotification =
     \<lparr> id_n = ''n1'', channel = ''updates'', data = JObj [(''title'', JStr ''x'')],
       priority_n = Some 8,
       metadata = \<lparr> excludeConnection = None, apiKey_m = ''key-A'', timestamp = 2000 \<rparr> \<rparr>"

text \<open>A configuration that allows one connection per API key.\<close>

definition oneClientConfig :: config where
  "oneClientConfig = defaultConfig \<lparr> maxClientsPerApiKey := 1 \<rparr>"

section \<open>Properties of the queue\<close>

subsection \<open>Auxiliary facts\<close>

lemma validate_note1: "validateNotification note1 = Inr ()"
  by (simp add: validateNotification_def note1_def)
lemma validate_note2: "validateNotification note2 = Inr ()"
  by (simp add: validateNotification_def note2_def)

lemma twoItemQueue_eq: "twoItemQueue = [newQueueItem defaultConfig 1000 note1, newQueueItem defaultConfig 2000 note2]"
  by code_simp

lemma length_insertSorted: "length (insertSorted x q) = Suc (length q)"
  by (induction q) simp_all

lemma length_sortQueue: "length (sortQueue q) = length q"
  unfolding sortQueue_def by (induction q) (simp_all add: length_insertSorted)

lemma length_dequeue: "length (snd (dequeue now q)) \<le> length q"
proof (cases "filter (\<lambda>item. expiresAt item > now) q")
  case Nil
  then show ?thesis by (simp add: dequeue_def)
next
  case (Cons a rest)
  have "length (filter (\<lambda>item. expiresAt item > now) q) \<le> length q" by (rule length_filter_le)
  with Cons show ?thesis by (simp add: dequeue_def)
qed

lemma length_batchLoop: "length (snd (batchLoop clk i k q batch)) \<le> length q"
proof (induction k arbitrary: i q batch)
  case 0
  then show ?case by simp
next
  case (Suc k)
  obtain r q1 where d: "dequeue (clk i) q = (r, q1)" by (cases "dequeue (clk i) q")
  have "length q1 \<le> length q" using length_dequeue[of "clk i" q] d by simp
  moreover have "length (snd (batchLoop clk (Suc i) k q1 b)) \<le> length q1" for b by (rule Suc.IH)
  ultimately show ?case using d by (cases r) (auto intro: le_trans)
qed

lemma length_enqueue:
  "0 \<le> maxQueueSize cfg \<Longrightarrow> int (length q) \<le> maxQueueSize cfg \<Longrightarrow> int (length (snd (enqueue cfg now n q))) \<le> maxQueueSize cfg"
  by (auto simp: enqueue_def length_sortQueue split: sum.splits)

lemma length_applyQueueOp:
  assumes "0 \<le> maxQueueSize cfg" "int (length q) \<le> maxQueueSize cfg"
  shows "int (length (applyQueueOp cfg q op)) \<le> maxQueueSize cfg"
proof (cases op)
  case (Enqueue now n)
  then show ?thesis using assms by (simp add: length_enqueue)
next
  case (Dequeue now)
  then show ?thesis using assms length_dequeue[of now q] by simp
next
  case (DequeueBatch clk s)
  have "length (snd (dequeueBatch cfg clk s q)) \<le> length q"
    unfolding dequeueBatch_def by (rule length_batchLoop)
  then show ?thesis using assms DequeueBatch by simp
next
  case Clear
  then show ?thesis using assms by (simp add: clear_def)
next
  case (Cleanup now)
  have "int (length (filter (\<lambda>item. expiresAt item > now) q)) \<le> int (length q)" by simp
  then show ?thesis unfolding Cleanup applyQueueOp.simps cleanupJob_def using assms(2) by linarith
qed

lemma length_foldl_ops:
  "0 \<le> maxQueueSize cfg \<Longrightarrow> int (length q) \<le> maxQueueSize cfg \<Longrightarrow>
   int (length (foldl (applyQueueOp cfg) q ops)) \<le> maxQueueSize cfg"
  by (induction ops arbitrary: q) (simp_all add: length_applyQueueOp)

lemma batchLoop_empty: "batchLoop clk i k [] batch = (batch, [])"
  by (induction k arbitrary: i) (simp_all add: dequeue_def)

lemma dequeue_Some_filter:
  "dequeue now q = (Some item, q') \<Longrightarrow> filter (\<lambda>x. expiresAt x > now) q = item # q'"
  by (auto simp: dequeue_def split: list.splits)

lemma dequeue_None_empty:
  "dequeue now q = (None, q') \<Longrightarrow> q' = [] \<and> filter (\<lambda>x. expiresAt x > now) q = []"
  by (auto simp: dequeue_def split: list.splits)

lemma dequeue_Some_unexpired:
  assumes "dequeue now q = (Some item, q')"
  shows "now < expiresAt item"
proof -
  have "item \<in> set (filter (\<lambda>x. expiresAt x > now) q)"
    using dequeue_Some_filter[OF assms] by simp
  then show ?thesis by simp
qed

lemma dequeue_None_iff:
  "fst (dequeue now q) = None \<longleftrightarrow> filter (\<lambda>item. expiresAt item > now) q = []"
  by (simp add: dequeue_def split: list.splits)

lemma batchLoop_prefix:
  "batchLoop clk i k q batch = (out, q') \<Longrightarrow> \<exists>ys. out = batch @ ys"
proof (induction k arbitrary: i q batch)
  case 0
  then show ?case by simp
next
  case (Suc k)
  show ?case
  proof (cases "dequeue (clk i) q")
    case (Pair r q1)
    show ?thesis
    proof (cases r)
      case None
      with Pair Suc.prems have "batchLoop clk (Suc i) k q1 batch = (out, q')" by simp
      then show ?thesis by (rule Suc.IH)
    next
      case (Some item)
      with Pair Suc.prems have "batchLoop clk (Suc i) k q1 (batch @ [item]) = (out, q')" by simp
      from Suc.IH[OF this] show ?thesis by auto
    qed
  qed
qed

lemma batchLoop_unexpired:
  "batchLoop clk i k q batch = (out, q') \<Longrightarrow>
   \<forall>j. length batch \<le> j \<and> j < length out \<longrightarrow>
       clk (i + (j - length batch)) < expiresAt (out ! j)"
proof (induction k arbitrary: i q batch)
  case 0
  then show ?case by auto
next
  case (Suc k)
  show ?case
  proof (cases "dequeue (clk i) q")
    case (Pair r q1)
    show ?thesis
    proof (cases r)
      case None
      with Pair have "q1 = []" by (auto dest: dequeue_None_empty)
      with Suc.prems Pair None have "out = batch" by (simp add: batchLoop_empty)
      then show ?thesis by simp
    next
      case (Some item)
      with Pair Suc.prems have bl: "batchLoop clk (Suc i) k q1 (batch @ [item]) = (out, q')"
        by simp
      from Suc.IH[OF bl]
      have ih: "\<forall>j. length batch + 1 \<le> j \<and> j < length out \<longrightarrow>
                  clk (Suc i + (j - (length batch + 1))) < expiresAt (out ! j)" by simp
      from batchLoop_prefix[OF bl] obtain ys where out: "out = batch @ item # ys" by auto
      have item: "clk i < expiresAt item"
        using Pair Some by (auto dest: dequeue_Some_unexpired)
      show ?thesis
      proof (intro allI impI)
        fix j assume j: "length batch \<le> j \<and> j < length out"
        show "clk (i + (j - length batch)) < expiresAt (out ! j)"
        proof (cases "j = length batch")
          case True
          then show ?thesis using out item by simp
        next
          case False
          with j have "length batch + 1 \<le> j \<and> j < length out" by simp
          with ih have lt: "clk (Suc i + (j - (length batch + 1))) < expiresAt (out ! j)"
            by blast
          have eq: "Suc i + (j - (length batch + 1)) = i + (j - length batch)"
            using j False by arith
          show ?thesis using lt unfolding eq .
        qed
      qed
    qed
  qed
qed

lemma compareItems_total: "compareItems a b \<le> 0 \<or> compareItems b a \<le> 0"
  by (auto simp: compareItems_def)

lemma compareItems_trans:
  "compareItems a b \<le> 0 \<Longrightarrow> compareItems b c \<le> 0 \<Longrightarrow> compareItems a c \<le> 0"
  by (auto simp: compareItems_def split: if_splits)

lemma compareItems_priority: "compareItems a b \<le> 0 \<Longrightarrow> priority b \<le> priority a"
  by (auto simp: compareItems_def split: if_splits)

lemma set_insertSorted: "set (insertSorted x q) = insert x (set q)"
  by (induction q) auto

lemma set_sortQueue: "set (sortQueue q) = set q"
  unfolding sortQueue_def by (induction q) (simp_all add: set_insertSorted)

lemma ordered_insertSorted: "ordered q \<Longrightarrow> ordered (insertSorted x q)"
proof (induction q)
  case Nil
  then show ?case by (simp add: ordered_def)
next
  case (Cons y ys)
  show ?case
  proof (cases "compareItems x y \<le> 0")
    case True
    then have "\<forall>z\<in>set ys. compareItems x z \<le> 0"
      using Cons.prems by (auto simp: ordered_def intro: compareItems_trans)
    with True Cons.prems show ?thesis by (simp add: ordered_def)
  next
    case False
    then have yx: "compareItems y x \<le> 0" using compareItems_total[of x y] by simp
    have "ordered ys" using Cons.prems by (simp add: ordered_def)
    then have "ordered (insertSorted x ys)" by (rule Cons.IH)
    with False yx Cons.prems show ?thesis by (auto simp: ordered_def set_insertSorted)
  qed
qed

lemma ordered_sortQueue: "ordered (sortQueue q)"
  unfolding sortQueue_def by (induction q) (simp_all add: ordered_insertSorted, simp add: ordered_def)

lemma ordered_filter: "ordered q \<Longrightarrow> ordered (filter P q)"
  unfolding ordered_def by (rule sorted_wrt_filter)

lemma band_insertSorted:
  "\<forall>z\<in>set q. priority z = priority y \<longrightarrow> compareItems y z \<le> 0 \<Longrightarrow>
   filter (\<lambda>i. priority i = p) (insertSorted y q) = filter (\<lambda>i. priority i = p) (y # q)"
  by (induction q) auto

lemma band_sortQueue:
  "sorted_wrt (\<lambda>a b. priority a = priority b \<longrightarrow> enqueuedAt a \<le> enqueuedAt b) q \<Longrightarrow>
   filter (\<lambda>i. priority i = p) (sortQueue q) = filter (\<lambda>i. priority i = p) q"
proof (induction q)
  case Nil
  then show ?case by (simp add: sortQueue_def)
next
  case (Cons y ys)
  have ih: "filter (\<lambda>i. priority i = p) (sortQueue ys) = filter (\<lambda>i. priority i = p) ys"
    using Cons by simp
  have "\<forall>z\<in>set (sortQueue ys). priority z = priority y \<longrightarrow> compareItems y z \<le> 0"
    using Cons.prems by (auto simp: set_sortQueue compareItems_def)
  from band_insertSorted[OF this]
  have "filter (\<lambda>i. priority i = p) (insertSorted y (sortQueue ys)) =
        filter (\<lambda>i. priority i = p) (y # sortQueue ys)" .
  moreover have "sortQueue (y # ys) = insertSorted y (sortQueue ys)" by (simp add: sortQueue_def)
  ultimately show ?case using ih by simp
qed

lemma ordered_band_times:
  "ordered q \<Longrightarrow> sorted_wrt (\<lambda>a b. priority a = priority b \<longrightarrow> enqueuedAt a \<le> enqueuedAt b) q"
  unfolding ordered_def
  by (erule sorted_wrt_mono_rel[rotated]) (auto simp: compareItems_def split: if_splits)

lemma queueInv_mono: "queueInv t q \<Longrightarrow> t \<le> t' \<Longrightarrow> queueInv t' q"
  by (auto simp: queueInv_def)

lemma queueInv_filter: "queueInv t q \<Longrightarrow> queueInv t (filter P q)"
  by (auto simp: queueInv_def ordered_filter)

lemma queueInv_tl: "queueInv t (x # q) \<Longrightarrow> queueInv t q"
  by (auto simp: queueInv_def ordered_def)

lemma queueInv_dequeue: "queueInv t q \<Longrightarrow> queueInv t (snd (dequeue now q))"
proof -
  assume a: "queueInv t q"
  have f: "queueInv t (filter (\<lambda>item. expiresAt item > now) q)" using a by (rule queueInv_filter)
  show ?thesis
  proof (cases "filter (\<lambda>item. expiresAt item > now) q")
    case Nil
    then show ?thesis by (simp add: dequeue_def queueInv_def ordered_def)
  next
    case (Cons x xs)
    with f have "queueInv t xs" by (auto dest: queueInv_tl)
    with Cons show ?thesis by (simp add: dequeue_def)
  qed
qed

lemma enqueue_cases:
  "enqueue cfg now n q = (r, q') \<Longrightarrow>
   (\<exists>e. r = Inl e \<and> q' = q) \<or> (r = Inr (newQueueItem cfg now n) \<and> q' = sortQueue (q @ [newQueueItem cfg now n]))"
  by (auto simp: enqueue_def split: sum.splits if_splits)

lemma queueInv_sortQueue_snoc:
  "queueInv t q \<Longrightarrow> t \<le> now \<Longrightarrow> queueInv now (sortQueue (q @ [newQueueItem cfg now n]))"
  by (auto simp: queueInv_def ordered_sortQueue set_sortQueue newQueueItem_def)

lemma queueInv_enqueue:
  assumes "queueInv t q" "t \<le> now"
  shows "queueInv now (snd (enqueue cfg now n q))"
proof -
  obtain r q' where e: "enqueue cfg now n q = (r, q')" by (cases "enqueue cfg now n q")
  from enqueue_cases[OF e] show ?thesis
    using assms e by (auto intro: queueInv_mono queueInv_sortQueue_snoc)
qed

lemma queueInv_batchLoop: "queueInv t q \<Longrightarrow> queueInv t (snd (batchLoop clk i k q batch))"
proof (induction k arbitrary: i q batch)
  case 0
  then show ?case by simp
next
  case (Suc k)
  obtain r q1 where d: "dequeue (clk i) q = (r, q1)" by (cases "dequeue (clk i) q")
  have "queueInv t q1" using queueInv_dequeue[OF Suc.prems, of "clk i"] d by simp
  then have "queueInv t (snd (batchLoop clk (Suc i) k q1 b))" for b by (rule Suc.IH)
  then show ?case using d by (cases r) simp_all
qed

lemma queueAt_inv: "queueAt cfg t q \<Longrightarrow> queueInv t q"
proof (induction rule: queueAt.induct)
  case (queueAt_init t)
  then show ?case by (simp add: queueInv_def ordered_def)
next
  case (queueAt_enqueue t q now n)
  then show ?case by (simp add: queueInv_enqueue)
next
  case (queueAt_dequeue t q now)
  then show ?case by (auto intro: queueInv_mono queueInv_dequeue)
next
  case (queueAt_dequeueBatch t q now clk size_arg)
  then show ?case by (auto simp: dequeueBatch_def intro: queueInv_mono queueInv_batchLoop)
next
  case (queueAt_cleanup t q now)
  then show ?case by (auto simp: cleanupJob_def intro: queueInv_mono queueInv_filter)
next
  case (queueAt_clear t q)
  then show ?case by (simp add: clear_def queueInv_def ordered_def)
qed

lemma band_enqueue_snoc:
  assumes "queueInv t q" "t \<le> now"
  shows "filter (\<lambda>i. priority i = p) (sortQueue (q @ [newQueueItem cfg now n])) =
         filter (\<lambda>i. priority i = p) q @ filter (\<lambda>i. priority i = p) [newQueueItem cfg now n]"
proof -
  have "sorted_wrt (\<lambda>a b. priority a = priority b \<longrightarrow> enqueuedAt a \<le> enqueuedAt b) q"
    using assms(1) by (simp add: queueInv_def ordered_band_times)
  moreover have "\<forall>y\<in>set q. enqueuedAt y \<le> enqueuedAt (newQueueItem cfg now n)"
    using assms by (auto simp: queueInv_def newQueueItem_def)
  ultimately have "sorted_wrt (\<lambda>a b. priority a = priority b \<longrightarrow> enqueuedAt a \<le> enqueuedAt b)
       (q @ [newQueueItem cfg now n])"
    by (simp add: sorted_wrt_append)
  from band_sortQueue[OF this] show ?thesis by simp
qed

lemma batchLoop_const_unexpired:
  "\<forall>x\<in>set q. T < expiresAt x \<Longrightarrow>
   batchLoop (\<lambda>_. T) i k q batch = (batch @ take k q, drop k q)"
proof (induction k arbitrary: i q batch)
  case 0
  then show ?case by simp
next
  case (Suc k)
  then have f: "filter (\<lambda>item. expiresAt item > T) q = q" by (simp add: filter_id_conv)
  show ?case
  proof (cases q)
    case Nil
    then show ?thesis by (simp add: dequeue_def batchLoop_empty)
  next
    case (Cons x xs)
    then have "\<forall>x\<in>set xs. T < expiresAt x" using Suc.prems by simp
    from Suc.IH[OF this] show ?thesis using Cons f by (simp add: dequeue_def)
  qed
qed

lemma batchLoop_const_all:
  assumes "length q \<le> k"
  shows "fst (batchLoop (\<lambda>_. T) i k q batch) = batch @ filter (\<lambda>item. expiresAt item > T) q"
proof (cases k)
  case 0
  with assms show ?thesis by simp
next
  case (Suc k')
  show ?thesis
  proof (cases "filter (\<lambda>item. expiresAt item > T) q")
    case Nil
    then show ?thesis using Suc by (simp add: dequeue_def batchLoop_empty)
  next
    case (Cons x xs)
    have "set xs \<subseteq> set (filter (\<lambda>item. expiresAt item > T) q)" using Cons by auto
    then have un: "\<forall>x\<in>set xs. T < expiresAt x" by auto
    have "length (filter (\<lambda>item. expiresAt item > T) q) \<le> length q" by (rule length_filter_le)
    with Cons assms Suc have len: "length xs \<le> k'" by simp
    show ?thesis using Cons Suc len by (simp add: dequeue_def batchLoop_const_unexpired[OF un])
  qed
qed

lemma dequeueBatch_all:
  "fst (dequeueBatch cfg (\<lambda>_. T) (Some (int (length q))) q) = filter (\<lambda>item. expiresAt item > T) q"
proof -
  have "length q \<le> nat (min (jsOr (Some (int (length q))) (batchSize cfg)) (int (length q)))"
    by (cases q) (simp_all add: jsOr_def)
  from batchLoop_const_all[OF this] show ?thesis by (simp add: dequeueBatch_def)
qed

lemma enqueueAll_band:
  "queueInv t0 q0 \<Longrightarrow> sorted (t0 # map fst tns) \<Longrightarrow> enqueueAll cfg tns q0 = Some q \<Longrightarrow>
   ordered q \<and>
   filter (\<lambda>i. priority i = p) q =
     filter (\<lambda>i. priority i = p) q0 @
     filter (\<lambda>i. priority i = p) (map (\<lambda>(now, n). newQueueItem cfg now n) tns)"
proof (induction tns arbitrary: t0 q0)
  case Nil
  then show ?case by (simp add: queueInv_def)
next
  case (Cons tn tns)
  obtain now n where tn: "tn = (now, n)" by (cases tn)
  obtain r q1 where e: "enqueue cfg now n q0 = (r, q1)" by (cases "enqueue cfg now n q0")
  from Cons.prems(3) tn e obtain item where r: "r = Inr item" and rest: "enqueueAll cfg tns q1 = Some q"
    by (cases r) auto
  from enqueue_cases[OF e] r have q1: "q1 = sortQueue (q0 @ [newQueueItem cfg now n])" by auto
  have le: "t0 \<le> now" using Cons.prems(2) tn by simp
  have inv1: "queueInv now q1" unfolding q1 using Cons.prems(1) le by (rule queueInv_sortQueue_snoc)
  have srt: "sorted (now # map fst tns)" using Cons.prems(2) tn by simp
  from Cons.IH[OF inv1 srt rest]
  have o: "ordered q" and b: "filter (\<lambda>i. priority i = p) q =
     filter (\<lambda>i. priority i = p) q1 @
     filter (\<lambda>i. priority i = p) (map (\<lambda>(now, n). newQueueItem cfg now n) tns)" by auto
  have "filter (\<lambda>i. priority i = p) q1 =
        filter (\<lambda>i. priority i = p) q0 @ filter (\<lambda>i. priority i = p) [newQueueItem cfg now n]"
    unfolding q1 using Cons.prems(1) le by (rule band_enqueue_snoc)
  with o b tn show ?case by simp
qed

subsection \<open>Dequeue order\<close>

text \<open>
  Claim C2.  Let \<open>q0\<close> be any queue the operations have produced by the clock reading
  \<open>t0\<close>, and let notifications be enqueued after that, all accepted, at clock readings
  that do not decrease.  Dequeueing everything that is left at a time \<open>T\<close> then
  returns the unexpired items in order of priority, highest first, whatever the order
  of insertion was; and for every priority \<open>p\<close> the items of priority \<open>p\<close> come
  out in the order they went in: first those that were already in \<open>q0\<close>, in the
  order \<open>q0\<close> held them, then the new ones in the order of their \<^verbatim>\<open>enqueue\<close> calls, for
  any number of them.
\<close>

theorem dequeue_priority_then_fifo:
  assumes "queueAt cfg t0 q0"
    and "sorted (t0 # map fst tns)"
    and "enqueueAll cfg tns q0 = Some q"
  shows "sorted_wrt (\<lambda>a b. priority a \<ge> priority b)
           (fst (dequeueBatch cfg (\<lambda>_. T) (Some (int (length q))) q))
       \<and> (\<forall>p. filter (\<lambda>i. priority i = p)
                (fst (dequeueBatch cfg (\<lambda>_. T) (Some (int (length q))) q)) =
              filter (\<lambda>i. priority i = p \<and> T < expiresAt i) q0 @
              filter (\<lambda>i. priority i = p \<and> T < expiresAt i)
                (map (\<lambda>(now, n). newQueueItem cfg now n) tns))"
proof -
  have inv: "queueInv t0 q0" using assms(1) by (rule queueAt_inv)
  have o: "ordered q" using enqueueAll_band[OF inv assms(2,3)] by simp
  have "sorted_wrt (\<lambda>a b. priority a \<ge> priority b) q"
    using o unfolding ordered_def
    by (rule sorted_wrt_mono_rel[rotated]) (simp add: compareItems_priority)
  then have a: "sorted_wrt (\<lambda>a b. priority a \<ge> priority b)
                  (filter (\<lambda>item. expiresAt item > T) q)"
    by (rule sorted_wrt_filter)
  have b: "filter (\<lambda>i. priority i = p) (filter (\<lambda>item. expiresAt item > T) q) =
              filter (\<lambda>i. priority i = p \<and> T < expiresAt i) q0 @
              filter (\<lambda>i. priority i = p \<and> T < expiresAt i)
                (map (\<lambda>(now, n). newQueueItem cfg now n) tns)" for p
  proof -
    have "filter (\<lambda>i. priority i = p) (filter (\<lambda>item. expiresAt item > T) q) =
          filter (\<lambda>item. expiresAt item > T) (filter (\<lambda>i. priority i = p) q)"
      by (simp add: conj_commute)
    also have "\<dots> = filter (\<lambda>item. expiresAt item > T)
                      (filter (\<lambda>i. priority i = p) q0 @
                       filter (\<lambda>i. priority i = p)
                         (map (\<lambda>(now, n). newQueueItem cfg now n) tns))"
      using enqueueAll_band[OF inv assms(2,3), of p] by simp
    also have "\<dots> = filter (\<lambda>i. priority i = p \<and> T < expiresAt i) q0 @
              filter (\<lambda>i. priority i = p \<and> T < expiresAt i)
                (map (\<lambda>(now, n). newQueueItem cfg now n) tns)"
      by (simp add: conj_commute)
    finally show ?thesis .
  qed
  show ?thesis unfolding dequeueBatch_all using a b by simp
qed

theorem dequeue_priority_then_fifo_witness:
  "queueAt defaultConfig 0 []
   \<and> sorted (0 # map fst threeSubmissions)
   \<and> enqueueAll defaultConfig threeSubmissions [] = Some threeItemQueue
   \<and> sorted_wrt (\<lambda>a b. priority a \<ge> priority b)
       (fst (dequeueBatch defaultConfig (\<lambda>_. 5000) (Some (int (length threeItemQueue)))
          threeItemQueue))
   \<and> filter (\<lambda>i. priority i = 5)
       (fst (dequeueBatch defaultConfig (\<lambda>_. 5000) (Some (int (length threeItemQueue)))
          threeItemQueue)) =
     [newQueueItem defaultConfig 1000 note1, newQueueItem defaultConfig 2000 note2]"
proof -
  have h1: "queueAt defaultConfig 0 []" by (rule queueAt_init)
  have h2: "sorted (0 # map fst threeSubmissions)" by (simp add: threeSubmissions_def)
  have h3: "enqueueAll defaultConfig threeSubmissions [] = Some threeItemQueue" by code_simp
  have e: "filter (\<lambda>i. priority i = 5 \<and> 5000 < expiresAt i)
             (map (\<lambda>(now, n). newQueueItem defaultConfig now n) threeSubmissions) =
           [newQueueItem defaultConfig 1000 note1, newQueueItem defaultConfig 2000 note2]"
    by (simp add: threeSubmissions_def newQueueItem_def note1_def note2_def note3_def
        jsOr_def defaultConfig_def)
  show ?thesis
    using dequeue_priority_then_fifo[OF h1 h2 h3, of 5000] h1 h2 h3 e by simp
qed

subsection \<open>The capacity bound\<close>

text \<open>
  Claim C3.  When the queue holds at least \<^verbatim>\<open>maxQueueSize\<close> items, \<^verbatim>\<open>enqueue\<close> of a valid
  notification throws \<^verbatim>\<open>QueueFullError\<close> and the queue is unchanged.  Consequently, for a
  maximum that is not negative, the queue never holds more than the maximum after any
  sequence of operations from the empty queue.
\<close>

theorem enqueue_full_rejected_and_bounded:
  "(validateNotification n = Inr () \<and> int (length q) \<ge> maxQueueSize cfg \<longrightarrow>
      enqueue cfg now n q =
        (Inl (QueueFullError
           (''Queue size limit reached ('' @ showInt (maxQueueSize cfg) @ '')'')), q))
   \<and> (0 \<le> maxQueueSize cfg \<longrightarrow> int (length (runQueue cfg ops)) \<le> maxQueueSize cfg)"
  by (simp add: enqueue_def runQueue_def length_foldl_ops)

theorem enqueue_full_rejected_and_bounded_witness:
  "validateNotification note3 = Inr ()
   \<and> int (length twoItemQueue) \<ge> maxQueueSize smallConfig
   \<and> enqueue smallConfig 3000 note3 twoItemQueue =
       (Inl (QueueFullError ''Queue size limit reached (2)''), twoItemQueue)
   \<and> 0 \<le> maxQueueSize smallConfig
   \<and> int (length (runQueue smallConfig
              [Enqueue 1000 note1, Enqueue 2000 note2, Enqueue 3000 note3])) \<le> 2"
proof -
  have h1: "validateNotification note3 = Inr ()"
    by (simp add: validateNotification_def note3_def)
  have h2: "int (length twoItemQueue) \<ge> maxQueueSize smallConfig"
    by (simp add: twoItemQueue_eq smallConfig_def)
  have h3: "0 \<le> maxQueueSize smallConfig" by (simp add: smallConfig_def)
  have m: "maxQueueSize smallConfig = 2" by (simp add: smallConfig_def)
  have s: "showInt 2 = ''2''" by code_simp
  show ?thesis
    using enqueue_full_rejected_and_bounded[where n = note3 and q = twoItemQueue
        and cfg = smallConfig and now = 3000
        and ops = "[Enqueue 1000 note1, Enqueue 2000 note2, Enqueue 3000 note3]"] h1 h2 h3
    by (simp add: m s)
qed

subsection \<open>Expired items\<close>

text \<open>
  Claim C4.  Whatever the queue holds (swept or not), an item \<^verbatim>\<open>dequeue\<close> returns has an
  \<^verbatim>\<open>expiresAt\<close> later than the clock reading of the call; \<^verbatim>\<open>dequeue\<close> returns null exactly
  when no unexpired item is in the queue; and the \<open>j\<close>-th item of the batch
  \<^verbatim>\<open>dequeueBatch\<close> returns has an \<^verbatim>\<open>expiresAt\<close> later than the clock reading of the
  iteration that returned it.
\<close>

theorem dequeue_never_returns_expired:
  "(\<forall>item q'. dequeue now q = (Some item, q') \<longrightarrow> now < expiresAt item)
   \<and> (fst (dequeue now q) = None \<longleftrightarrow> filter (\<lambda>item. expiresAt item > now) q = [])
   \<and> (\<forall>j < length (fst (dequeueBatch cfg clk size_arg q)).
         clk j < expiresAt (fst (dequeueBatch cfg clk size_arg q) ! j))"
proof -
  obtain out q' where b: "dequeueBatch cfg clk size_arg q = (out, q')"
    by (cases "dequeueBatch cfg clk size_arg q")
  then have "batchLoop clk 0 (nat (min (jsOr size_arg (batchSize cfg)) (int (length q)))) q []
             = (out, q')"
    by (simp add: dequeueBatch_def)
  from batchLoop_unexpired[OF this] have "\<forall>j < length out. clk j < expiresAt (out ! j)"
    by simp
  with b show ?thesis
    by (auto simp: dequeue_None_iff dest: dequeue_Some_unexpired)
qed

theorem dequeue_never_returns_expired_witness:
  "dequeue 86401500 twoItemQueue = (Some (newQueueItem defaultConfig 2000 note2), [])
   \<and> 86401500 < expiresAt (newQueueItem defaultConfig 2000 note2)
   \<and> (0::nat) < length (fst (dequeueBatch defaultConfig (\<lambda>i. 86401500 + int i) None twoItemQueue))
   \<and> 86401500 + int 0 <
       expiresAt (fst (dequeueBatch defaultConfig (\<lambda>i. 86401500 + int i) None twoItemQueue) ! 0)"
proof -
  have d: "dequeue 86401500 twoItemQueue = (Some (newQueueItem defaultConfig 2000 note2), [])"
    by (simp add: twoItemQueue_eq dequeue_def newQueueItem_def defaultConfig_def)
  have l: "(0::nat) < length (fst (dequeueBatch defaultConfig (\<lambda>i. 86401500 + int i) None
             twoItemQueue))"
    by (simp add: twoItemQueue_eq dequeueBatch_def jsOr_def dequeue_def newQueueItem_def
        defaultConfig_def numeral_2_eq_2)
  show ?thesis
    using dequeue_never_returns_expired[where now = 86401500 and q = twoItemQueue
        and cfg = defaultConfig and clk = "\<lambda>i. 86401500 + int i" and size_arg = None] d l
    by blast
qed

subsection \<open>The oldest-message statistic\<close>

text \<open>
  Claim C8 does not hold of the code: \<^verbatim>\<open>getStats\<close> reads the \<^emph>\<open>last\<close> item of the sorted
  queue.  With two items of priority 5 enqueued at 1000 and 2000, the statistic at 3000
  is 1000, the age of the newer item, while the earliest-enqueued item is 2000 old.
\<close>

theorem getStats_oldestMessage_reads_last_item:
  "oldestMessage (getStats defaultConfig 3000 twoItemQueue) = 1000
   \<and> 3000 - Min (set (map enqueuedAt twoItemQueue)) = 2000"
  by (simp add: twoItemQueue_eq getStats_def newQueueItem_def)

text \<open>In general the statistic is the age of the last item of the queue.\<close>

lemma getStats_oldestMessage_last:
  "q \<noteq> [] \<Longrightarrow> oldestMessage (getStats cfg now q) = now - enqueuedAt (last q)"
  by (simp add: getStats_def last_conv_nth)

section \<open>Properties of the registry\<close>

subsection \<open>Auxiliary facts\<close>

lemma map_of_foldl_delete:
  "map_of (foldl (\<lambda>m c. AList.delete c m) al cs) x =
     (if x \<in> set cs then None else map_of al x)"
proof (induction cs arbitrary: al)
  case Nil
  then show ?case by simp
next
  case (Cons c cs)
  show ?case by (simp add: Cons.IH delete_conv')
qed

lemma distinct_foldl_delete:
  "distinct (map fst al) \<Longrightarrow> distinct (map fst (foldl (\<lambda>m c. AList.delete c m) al cs))"
  by (induction cs arbitrary: al) (simp_all add: distinct_delete)

lemma set_Set_add: "set (Set_add x xs) = insert x (set xs)"
  by (auto simp: Set_add_def)

lemma set_Set_delete: "set (Set_delete x xs) = set xs - {x}"
  by (auto simp: Set_delete_def)

lemma getConnectionsByChannel_set:
  assumes "distinct (map fst (connections_m st))"
  shows "set (getConnectionsByChannel st ch) =
         {c. \<exists>conn. map_of (connections_m st) c = Some conn \<and> ch \<in> set (channels conn)}"
  using assms by (force simp: getConnectionsByChannel_def map_of_eq_Some_iff)

lemma getConnectionsByChannel_keys:
  "c \<in> set (getConnectionsByChannel st ch) \<Longrightarrow> c \<in> fst ` set (connections_m st)"
  by (auto simp: getConnectionsByChannel_def)

lemma getConnectionsByChannel_dom:
  "c \<in> set (getConnectionsByChannel st ch) \<Longrightarrow> map_of (connections_m st) c \<noteq> None"
  by (simp add: map_of_eq_None_iff getConnectionsByChannel_keys)

lemma managerInv_owned: "managerInv st \<longleftrightarrow> distinct (map fst (connections_m st)) \<and> owned st"
  by (simp add: managerInv_def)

lemma owned_load: "owned (loadFromDatabase db)"
  by (simp add: owned_def loadFromDatabase_def)

lemma owned_generate:
  "owned st \<Longrightarrow> map_of (apiKeys st) k = None \<Longrightarrow>
   owned (snd (generateApiKey now k clientName uid st))"
  unfolding owned_def generateApiKey_def
  by (auto simp: update_conv') (metis option.inject option.distinct(1))+

lemma owned_register:
  "owned st \<Longrightarrow> owned (snd (registerConnection cfg now c k st))"
  unfolding owned_def registerConnection_def
  by (auto simp: update_conv' set_Set_add split: sum.splits option.splits if_splits) (metis option.inject option.distinct(1))+

lemma owned_unregister:
  "owned st \<Longrightarrow> owned (snd (unregisterConnection c st))"
  unfolding owned_def unregisterConnection_def
  by (auto simp: update_conv' delete_conv' set_Set_delete split: option.splits if_splits) (metis option.inject option.distinct(1))+

lemma owned_subscribe:
  "owned st \<Longrightarrow> owned (snd (subscribeToChannel c ch st))"
  unfolding owned_def subscribeToChannel_def
  by (auto simp: update_conv' split: option.splits if_splits)

lemma owned_unsubscribe:
  "owned st \<Longrightarrow> owned (snd (unsubscribeFromChannel c ch st))"
  unfolding owned_def unsubscribeFromChannel_def
  by (auto simp: update_conv' split: option.splits if_splits)

lemma owned_stats:
  "owned st \<Longrightarrow> owned (updateNotificationStats now k st)"
  unfolding owned_def updateNotificationStats_def
  by (auto simp: update_conv' split: option.splits if_splits) (metis option.inject option.distinct(1))+

lemma owned_revoke:
  "owned st \<Longrightarrow> owned (snd (revokeApiKey k st))"
  unfolding owned_def revokeApiKey_def
  by (auto simp: delete_conv' map_of_foldl_delete split: option.splits if_splits) (metis option.inject option.distinct(1))+

lemma distinct_register:
  "distinct (map fst (connections_m st)) \<Longrightarrow>
   distinct (map fst (connections_m (snd (registerConnection cfg now c k st))))"
  by (auto simp: registerConnection_def distinct_update split: sum.splits option.splits)

lemma distinct_unregister:
  "distinct (map fst (connections_m st)) \<Longrightarrow>
   distinct (map fst (connections_m (snd (unregisterConnection c st))))"
  by (auto simp: unregisterConnection_def distinct_delete split: option.splits)

lemma distinct_subscribe:
  "distinct (map fst (connections_m st)) \<Longrightarrow>
   distinct (map fst (connections_m (snd (subscribeToChannel c ch st))))"
  by (auto simp: subscribeToChannel_def distinct_update split: option.splits)

lemma distinct_unsubscribe:
  "distinct (map fst (connections_m st)) \<Longrightarrow>
   distinct (map fst (connections_m (snd (unsubscribeFromChannel c ch st))))"
  by (auto simp: unsubscribeFromChannel_def distinct_update split: option.splits)

lemma distinct_revoke:
  "distinct (map fst (connections_m st)) \<Longrightarrow>
   distinct (map fst (connections_m (snd (revokeApiKey k st))))"
  by (auto simp: revokeApiKey_def distinct_foldl_delete split: option.splits)

lemma reachable_inv: "reachableManager cfg st \<Longrightarrow> managerInv st"
proof (induction rule: reachableManager.induct)
  case (reach_load db)
  then show ?case by (simp add: managerInv_owned owned_load) (simp add: loadFromDatabase_def)
next
  case (reach_generate st k now clientName uid)
  then show ?case by (simp add: managerInv_owned owned_generate) (simp add: generateApiKey_def)
next
  case (reach_register st now connectionId k)
  then show ?case by (simp add: managerInv_owned owned_register distinct_register)
next
  case (reach_unregister st connectionId)
  then show ?case by (simp add: managerInv_owned owned_unregister distinct_unregister)
next
  case (reach_subscribe st connectionId ch)
  then show ?case by (simp add: managerInv_owned owned_subscribe distinct_subscribe)
next
  case (reach_unsubscribe st connectionId ch)
  then show ?case by (simp add: managerInv_owned owned_unsubscribe distinct_unsubscribe)
next
  case (reach_stats st now k)
  then show ?case by (simp add: managerInv_owned owned_stats) (simp add: updateNotificationStats_def split: option.splits)
next
  case (reach_revoke st k)
  then show ?case by (simp add: managerInv_owned owned_revoke distinct_revoke)
qed

lemma subscribedManager_eq:
  "subscribedManager =
     \<lparr> apiKeys =
         [(''key-A'', \<lparr> name = ''alpha'', userId = None, createdAt = 0, connections = [''c1''],
                       stats = \<lparr> totalConnections = 1, totalNotifications = 0,
                                 lastActivity = 1000 \<rparr> \<rparr>),
          (''key-B'', \<lparr> name = ''beta'', userId = None, createdAt = 0, connections = [],
                       stats = \<lparr> totalConnections = 0, totalNotifications = 0,
                                 lastActivity = 0 \<rparr> \<rparr>)],
       connections_m =
         [(''c1'', \<lparr> apiKey = ''key-A'', channels = [''updates''], connectedAt = 1000 \<rparr>)] \<rparr>"
  by code_simp

subsection \<open>The limit of connections per API key\<close>

text \<open>
  Claim C5.  Let \<open>k\<close> be an API key that \<^verbatim>\<open>validateApiKey\<close> accepts, with entry
  \<open>client\<close>.  When the size of its connection set equals \<^verbatim>\<open>maxClientsPerApiKey\<close>,
  \<^verbatim>\<open>registerConnection\<close> throws \<^verbatim>\<open>ValidationError\<close> and the registry (the connection set of
  the key, its counters, the connection map) is the one before the call.  When the size
  is below the limit, the call succeeds; afterwards the entry of the key has the
  connection added to its set, the lifetime counter incremented and the activity time
  set to the time of the call, and the connection map records the connection under
  \<open>k\<close>.
\<close>

theorem registerConnection_limit:
  "(k \<noteq> [] \<and> map_of (apiKeys st) k = Some client
      \<and> int (Set_size (connections client)) = maxClientsPerApiKey cfg \<longrightarrow>
      registerConnection cfg now c k st =
        (Inl (ValidationError
           (''Maximum connections ('' @ showInt (maxClientsPerApiKey cfg)
              @ '') reached for this API key'')), st))
   \<and> (k \<noteq> [] \<and> map_of (apiKeys st) k = Some client
      \<and> int (Set_size (connections client)) < maxClientsPerApiKey cfg \<longrightarrow>
      fst (registerConnection cfg now c k st) = Inr True
      \<and> map_of (apiKeys (snd (registerConnection cfg now c k st))) k =
          Some (client\<lparr>connections := Set_add c (connections client),
                       stats := (stats client)
                         \<lparr>totalConnections := totalConnections (stats client) + 1,
                          lastActivity := now\<rparr>\<rparr>)
      \<and> map_of (connections_m (snd (registerConnection cfg now c k st))) c =
          Some \<lparr> apiKey = k, channels = [], connectedAt = now \<rparr>)"
  by (simp add: registerConnection_def validateApiKey_def update_conv')

theorem registerConnection_limit_witness:
  "registerConnection oneClientConfig 3000 ''c2'' ''key-A'' subscribedManager =
     (Inl (ValidationError ''Maximum connections (1) reached for this API key''),
      subscribedManager)
   \<and> fst (registerConnection oneClientConfig 3000 ''c2'' ''key-B'' subscribedManager) = Inr True
   \<and> map_of (connections_m
        (snd (registerConnection oneClientConfig 3000 ''c2'' ''key-B'' subscribedManager))) ''c2'' =
       Some \<lparr> apiKey = ''key-B'', channels = [], connectedAt = 3000 \<rparr>"
proof -
  have m: "maxClientsPerApiKey oneClientConfig = 1"
    by (simp add: oneClientConfig_def)
  have s: "showInt 1 = ''1''" by code_simp
  have a: "''key-A'' \<noteq> [] \<and> map_of (apiKeys subscribedManager) ''key-A'' =
             Some \<lparr> name = ''alpha'', userId = None, createdAt = 0, connections = [''c1''],
                       stats = \<lparr> totalConnections = 1, totalNotifications = 0,
                                 lastActivity = 1000 \<rparr> \<rparr>
           \<and> int (Set_size (connections \<lparr> name = ''alpha'', userId = None, createdAt = 0, connections = [''c1''],
                       stats = \<lparr> totalConnections = 1, totalNotifications = 0,
                                 lastActivity = 1000 \<rparr> \<rparr>)) = maxClientsPerApiKey oneClientConfig"
    by (simp add: subscribedManager_eq m Set_size_def)
  have b: "''key-B'' \<noteq> [] \<and> map_of (apiKeys subscribedManager) ''key-B'' =
             Some \<lparr> name = ''beta'', userId = None, createdAt = 0, connections = [],
                       stats = \<lparr> totalConnections = 0, totalNotifications = 0,
                                 lastActivity = 0 \<rparr> \<rparr>
           \<and> int (Set_size (connections \<lparr> name = ''beta'', userId = None, createdAt = 0, connections = [],
                       stats = \<lparr> totalConnections = 0, totalNotifications = 0,
                                 lastActivity = 0 \<rparr> \<rparr>)) < maxClientsPerApiKey oneClientConfig"
    by (simp add: subscribedManager_eq m Set_size_def)
  show ?thesis
    using registerConnection_limit[where k = "''key-A''" and st = subscribedManager
        and cfg = oneClientConfig and now = 3000 and c = "''c2''"
        and client = "\<lparr> name = ''alpha'', userId = None, createdAt = 0, connections = [''c1''],
                       stats = \<lparr> totalConnections = 1, totalNotifications = 0,
                                 lastActivity = 1000 \<rparr> \<rparr>"]
      registerConnection_limit[where k = "''key-B''" and st = subscribedManager
        and cfg = oneClientConfig and now = 3000 and c = "''c2''"
        and client = "\<lparr> name = ''beta'', userId = None, createdAt = 0, connections = [],
                       stats = \<lparr> totalConnections = 0, totalNotifications = 0,
                                 lastActivity = 0 \<rparr> \<rparr>"]
      a b
    by (simp add: m s)
qed

subsection \<open>Channel results and the live connections\<close>

text \<open>
  Claim C6.  In every reachable state of the registry, so after every operation,
  \<^verbatim>\<open>getConnectionsByChannel\<close> of a channel holds exactly the connection ids of the
  connection map whose subscription set has the channel.  After \<^verbatim>\<open>unregisterConnection\<close>
  of a connection, no channel result has it; after \<^verbatim>\<open>revokeApiKey\<close> of a key, no channel
  result has a connection the map recorded under that key.
\<close>

theorem channel_result_matches_live_connections:
  assumes "reachableManager cfg st"
  shows "set (getConnectionsByChannel st ch) =
           {c. \<exists>conn. map_of (connections_m st) c = Some conn \<and> ch \<in> set (channels conn)}
       \<and> (\<forall>c. c \<notin> set (getConnectionsByChannel (snd (unregisterConnection c st)) ch))
       \<and> (\<forall>k c conn. map_of (connections_m st) c = Some conn \<and> apiKey conn = k \<longrightarrow>
             c \<notin> set (getConnectionsByChannel (snd (revokeApiKey k st)) ch))"
proof -
  have inv: "managerInv st" using assms by (rule reachable_inv)
  then have d: "distinct (map fst (connections_m st))" and o: "owned st"
    by (simp_all add: managerInv_def)
  have one: "set (getConnectionsByChannel st ch) =
           {c. \<exists>conn. map_of (connections_m st) c = Some conn \<and> ch \<in> set (channels conn)}"
    using d by (rule getConnectionsByChannel_set)
  have two: "c \<notin> set (getConnectionsByChannel (snd (unregisterConnection c st)) ch)" for c
  proof
    assume "c \<in> set (getConnectionsByChannel (snd (unregisterConnection c st)) ch)"
    then have "map_of (connections_m (snd (unregisterConnection c st))) c \<noteq> None"
      by (rule getConnectionsByChannel_dom)
    then show False
      by (auto simp: unregisterConnection_def delete_conv' split: option.splits)
  qed
  have three: "c \<notin> set (getConnectionsByChannel (snd (revokeApiKey k st)) ch)"
    if c: "map_of (connections_m st) c = Some conn" and k: "apiKey conn = k" for k c conn
  proof
    assume "c \<in> set (getConnectionsByChannel (snd (revokeApiKey k st)) ch)"
    then have n: "map_of (connections_m (snd (revokeApiKey k st))) c \<noteq> None"
      by (rule getConnectionsByChannel_dom)
    from o c k obtain client where cl: "map_of (apiKeys st) k = Some client"
      and m: "c \<in> set (connections client)"
      unfolding owned_def by blast
    from n cl m show False
      by (simp add: revokeApiKey_def map_of_foldl_delete)
  qed
  show ?thesis using one two three by blast
qed

theorem channel_result_matches_live_connections_witness:
  "reachableManager defaultConfig subscribedManager
   \<and> ''c1'' \<in> set (getConnectionsByChannel subscribedManager ''updates'')
   \<and> ''c1'' \<notin> set (getConnectionsByChannel (snd (unregisterConnection ''c1'' subscribedManager)) ''updates'')
   \<and> map_of (connections_m subscribedManager) ''c1'' =
       Some \<lparr> apiKey = ''key-A'', channels = [''updates''], connectedAt = 1000 \<rparr>
   \<and> ''c1'' \<notin> set (getConnectionsByChannel (snd (revokeApiKey ''key-A'' subscribedManager)) ''updates'')"
proof -
  have r: "reachableManager defaultConfig subscribedManager"
    unfolding subscribedManager_def
    by (rule reach_subscribe, rule reach_register, rule reach_load)
  have m: "map_of (connections_m subscribedManager) ''c1'' =
       Some \<lparr> apiKey = ''key-A'', channels = [''updates''], connectedAt = 1000 \<rparr>"
    by (simp add: subscribedManager_eq)
  show ?thesis
    using channel_result_matches_live_connections[OF r, of "''updates''"] r m
    by auto
qed

subsection \<open>One API key per connection\<close>

text \<open>
  Claim C7 does not hold of the code.  A connection that authenticates with one valid
  key and then sends \<^verbatim>\<open>authenticate\<close> with another is registered again: it is then in
  the connection sets of both keys, the connection map records the second key for it,
  the closure of its handler still holds the first, and the socket stays open.
\<close>

theorem second_authenticate_registers_under_both_keys:
  "map (\<lambda>(k, d). (k, connections d)) (apiKeys (snd (snd authenticatedTwice))) =
     [(''key-A'', [''c1'']), (''key-B'', [''c1''])]
   \<and> map_option apiKey (map_of (connections_m (snd (snd authenticatedTwice))) ''c1'') = Some ''key-B''
   \<and> apiKey_h (fst authenticatedTwice) = Some ''key-A''
   \<and> readyState (fst (snd authenticatedTwice)) = OPEN"
  by code_simp

section \<open>Properties of the connection protocol\<close>

subsection \<open>Auxiliary facts\<close>

lemma readyState_sendMessage: "readyState (sendMessage ws m) = readyState ws"
  by (simp add: sendMessage_def)

lemma readyState_handleWebSocketError: "readyState (handleWebSocketError e ws) = readyState ws"
  by (simp add: handleWebSocketError_def)

lemma handleSubscribe_open:
  "readyState (fst (snd (handleSubscribe ws ch cid st))) = readyState ws"
  by (auto simp: handleSubscribe_def readyState_sendMessage split: prod.splits sum.splits)

lemma handleUnsubscribe_open:
  "readyState (fst (snd (handleUnsubscribe ws ch cid st))) = readyState ws"
  by (auto simp: handleUnsubscribe_def readyState_sendMessage split: prod.splits)

lemma handleAuthenticate_open:
  "fst (handleAuthenticate cfg now ws k cid st) = None \<Longrightarrow>
   readyState (fst (snd (handleAuthenticate cfg now ws k cid st))) = readyState ws"
  by (auto simp: handleAuthenticate_def readyState_sendMessage split: prod.splits sum.splits)

lemma onMessage_socket:
  "readyState (fst (snd (onMessage cfg now cid msg (h, ws, st)))) =
   readyState (fst (snd (handleMessage cfg now ws msg cid (apiKey_h h) (isAuthenticated h) st)))"
  by (auto simp: onMessage_def readyState_handleWebSocketError
      split: prod.splits option.splits clientMessage.splits)

lemma handleMessage_closes:
  assumes "readyState (fst (snd (handleMessage cfg now ws msg cid key authed st))) \<noteq> readyState ws"
  shows "\<exists>k e. msg = Authenticate k \<and> fst (handleAuthenticate cfg now ws k cid st) = Some e"
proof (cases msg)
  case (Authenticate k)
  with assms have "fst (handleAuthenticate cfg now ws k cid st) \<noteq> None"
    using handleAuthenticate_open[of cfg now ws k cid st] by auto
  with Authenticate show ?thesis by auto
next
  case (Subscribe ch)
  with assms show ?thesis by (simp add: handleSubscribe_open split: if_splits)
next
  case (Unsubscribe ch)
  with assms show ?thesis by (simp add: handleUnsubscribe_open split: if_splits)
next
  case Ping
  with assms show ?thesis by (simp add: readyState_sendMessage)
next
  case (Other t)
  with assms show ?thesis by simp
qed

subsection \<open>Messages before authentication\<close>

text \<open>
  Claim C9.  On a connection that has not authenticated and whose socket is open, a
  \<^verbatim>\<open>subscribe\<close> or \<^verbatim>\<open>unsubscribe\<close> message changes nothing but the socket's outbox, which
  gains the serialised \<^verbatim>\<open>AuthenticationError\<close> "Not authenticated": the closure, the
  registry and the ready state of the socket are as before.  And whenever handling a
  message leaves an open socket no longer open, the message was \<^verbatim>\<open>authenticate\<close> and
  its handler threw.
\<close>

theorem unauthenticated_subscribe_rejected_in_band:
  "(\<not> isAuthenticated h \<and> readyState ws = OPEN \<and> (msg = Subscribe ch \<or> msg = Unsubscribe ch) \<longrightarrow>
      onMessage cfg now cid msg (h, ws, st) =
        (h,
         ws\<lparr>sent := sent ws @
              [ErrorMessage ''AuthenticationError'' ''Not authenticated''
                 ''AUTHENTICATION_ERROR'' (Some 401)]\<rparr>,
         st))
   \<and> (readyState ws = OPEN
        \<and> readyState (fst (snd (onMessage cfg now cid msg (h, ws, st)))) \<noteq> OPEN \<longrightarrow>
      (\<exists>k e. msg = Authenticate k \<and> fst (handleAuthenticate cfg now ws k cid st) = Some e))"
proof -
  have one: "onMessage cfg now cid msg (h, ws, st) =
        (h,
         ws\<lparr>sent := sent ws @
              [ErrorMessage ''AuthenticationError'' ''Not authenticated''
                 ''AUTHENTICATION_ERROR'' (Some 401)]\<rparr>,
         st)"
    if "\<not> isAuthenticated h" "readyState ws = OPEN" "msg = Subscribe ch \<or> msg = Unsubscribe ch"
    using that by (auto simp: onMessage_def handleWebSocketError_def)
  have two: "\<exists>k e. msg = Authenticate k \<and> fst (handleAuthenticate cfg now ws k cid st) = Some e"
    if "readyState ws = OPEN"
      "readyState (fst (snd (onMessage cfg now cid msg (h, ws, st)))) \<noteq> OPEN"
  proof -
    from that have "readyState (fst (snd (handleMessage cfg now ws msg cid (apiKey_h h)
        (isAuthenticated h) st))) \<noteq> readyState ws"
      by (simp add: onMessage_socket)
    then show ?thesis by (rule handleMessage_closes)
  qed
  show ?thesis using one two by blast
qed

theorem unauthenticated_subscribe_rejected_in_band_witness:
  "\<not> isAuthenticated freshHandler \<and> readyState freshSocket = OPEN
   \<and> onMessage defaultConfig 500 ''c1'' (Subscribe ''x'')
        (freshHandler, freshSocket, loadFromDatabase exampleDb) =
       (freshHandler,
        freshSocket\<lparr>sent := [ErrorMessage ''AuthenticationError'' ''Not authenticated''
                                ''AUTHENTICATION_ERROR'' (Some 401)]\<rparr>,
        loadFromDatabase exampleDb)
   \<and> readyState (fst (snd (onMessage defaultConfig 500 ''c1'' (Authenticate ''no-such-key'')
        (freshHandler, freshSocket, loadFromDatabase exampleDb)))) \<noteq> OPEN
   \<and> fst (handleAuthenticate defaultConfig 500 freshSocket ''no-such-key'' ''c1''
        (loadFromDatabase exampleDb)) = Some (AuthenticationError ''Invalid API key'')"
proof -
  have a: "\<not> isAuthenticated freshHandler \<and> readyState freshSocket = OPEN"
    by (simp add: freshHandler_def freshSocket_def)
  have s: "sent freshSocket = []" by (simp add: freshSocket_def)
  have c: "readyState (fst (snd (onMessage defaultConfig 500 ''c1'' (Authenticate ''no-such-key'')
        (freshHandler, freshSocket, loadFromDatabase exampleDb)))) \<noteq> OPEN"
    by code_simp
  have e: "fst (handleAuthenticate defaultConfig 500 freshSocket ''no-such-key'' ''c1''
        (loadFromDatabase exampleDb)) = Some (AuthenticationError ''Invalid API key'')"
    by code_simp
  show ?thesis
    using unauthenticated_subscribe_rejected_in_band[where h = freshHandler and ws = freshSocket
        and msg = "Subscribe ''x''" and ch = "''x''" and cfg = defaultConfig and now = 500
        and cid = "''c1''" and st = "loadFromDatabase exampleDb"]
      unauthenticated_subscribe_rejected_in_band[where h = freshHandler and ws = freshSocket
        and msg = "Authenticate ''no-such-key''" and cfg = defaultConfig and now = 500
        and cid = "''c1''" and st = "loadFromDatabase exampleDb"]
      a c e
    by (simp add: s)
qed

section \<open>Properties of the delivery engine\<close>

subsection \<open>Auxiliary facts\<close>

lemma startedService_eq:
  "startedService =
     \<lparr> clientManager = updateNotificationStats 2000 ''key-A'' subscribedManager,
       notificationQueue = [newQueueItem defaultConfig 2000 acceptedNotification],
       wsServer = None, processing = True, clock = 2000, logged = [] \<rparr>"
  by code_simp

lemma subscribers_updates:
  "getConnectionsByChannel (updateNotificationStats 2000 ''key-A'' subscribedManager) ''updates'' = [''c1'']"
  by code_simp

lemma validate_accepted: "validateNotification acceptedNotification = Inr ()"
  by (simp add: validateNotification_def acceptedNotification_def)

lemma retry_round:
  assumes "wsServer s = None"
    and "clientManager s = updateNotificationStats 2000 ''key-A'' subscribedManager"
    and "notificationQueue s = [newQueueItem defaultConfig t acceptedNotification]"
    and "clock s < t + 86400000"
  shows "processRound defaultConfig s =
           (None, s\<lparr>notificationQueue :=
                       [newQueueItem defaultConfig (clock s + 1000) acceptedNotification],
                    clock := clock s + 1000,
                    logged := logged s @
                      [ErrorProcessingNotification ''n1'' 1 ''WebSocket server not initialized'']\<rparr>)"
proof -
  have ex: "expiresAt (newQueueItem defaultConfig t acceptedNotification) = t + 86400000"
    by (simp add: newQueueItem_def defaultConfig_def)
  have d: "dequeueBatch defaultConfig (\<lambda>_. clock s) None (notificationQueue s) =
           ([newQueueItem defaultConfig t acceptedNotification], [])"
    using assms(3,4) ex
    by (simp add: dequeueBatch_def jsOr_def defaultConfig_def dequeue_def)
  have ch: "channel (notification (newQueueItem defaultConfig t acceptedNotification)) = ''updates''"
    by (simp add: newQueueItem_def acceptedNotification_def)
  have n: "notification (newQueueItem defaultConfig t acceptedNotification) = acceptedNotification"
    by (simp add: newQueueItem_def)
  have a: "attempts (newQueueItem defaultConfig t acceptedNotification) = 0"
    by (simp add: newQueueItem_def)
  have sl: "sendLoop acceptedNotification [''c1''] None [] =
            Inl (PlainError ''WebSocket server not initialized'')"
    by (simp add: sendToConnection_def acceptedNotification_def)
  have e: "enqueue defaultConfig now acceptedNotification [] =
           (Inr (newQueueItem defaultConfig now acceptedNotification),
            [newQueueItem defaultConfig now acceptedNotification])" for now
    by (simp add: enqueue_def validate_accepted defaultConfig_def sortQueue_def)
  have idn: "id_n acceptedNotification = ''n1''" by (simp add: acceptedNotification_def)
  have chn: "channel acceptedNotification = ''updates''" by (simp add: acceptedNotification_def)
  have r: "retryAttempts defaultConfig = 3" "retryDelay defaultConfig = 1000"
    by (simp_all add: defaultConfig_def)
  have p: "processNotification defaultConfig (newQueueItem defaultConfig t acceptedNotification)
             (s\<lparr>notificationQueue := []\<rparr>) =
           (None, s\<lparr>notificationQueue :=
                       [newQueueItem defaultConfig (clock s + 1000) acceptedNotification],
                    clock := clock s + 1000,
                    logged := logged s @
                      [ErrorProcessingNotification ''n1'' 1 ''WebSocket server not initialized'']\<rparr>)"
    unfolding processNotification_def
    by (simp add: n a chn idn assms(1,2) subscribers_updates sl e r Let_def del: sendLoop.simps)
  show ?thesis
    unfolding processRound_def d by (simp add: p)
qed

lemma retry_loop_never_returns_aux:
  assumes "wsServer s = None"
    and "clientManager s = updateNotificationStats 2000 ''key-A'' subscribedManager"
    and "notificationQueue s = [newQueueItem defaultConfig t acceptedNotification]"
    and "clock s < t + 86400000"
  shows "processQueue fuel defaultConfig s = None"
  using assms
proof (induction fuel arbitrary: s t)
  case 0
  then show ?case by simp
next
  case (Suc fuel)
  let ?s' = "s\<lparr>notificationQueue :=
                       [newQueueItem defaultConfig (clock s + 1000) acceptedNotification],
                    clock := clock s + 1000,
                    logged := logged s @
                      [ErrorProcessingNotification ''n1'' 1 ''WebSocket server not initialized'']\<rparr>"
  have r: "processRound defaultConfig s = (None, ?s')"
    using Suc.prems by (rule retry_round)
  have ne: "\<not> isEmpty (notificationQueue s)" using Suc.prems(3) by (simp add: isEmpty_def)
  have "processQueue fuel defaultConfig (?s'\<lparr>clock := clock ?s' + 10\<rparr>) = None"
    by (rule Suc.IH[where t = "clock s + 1000"]) (simp_all add: Suc.prems)
  then show ?case using ne r by simp
qed

subsection \<open>The retry cap\<close>

text \<open>
  Claim C1 does not hold of the code.  With no WebSocket server set and one subscriber
  of the channel, processing the accepted notification throws in every round; each
  retry calls \<^verbatim>\<open>enqueue\<close>, which wraps the notification in a new item with
  \<^verbatim>\<open>attempts: 0\<close>.  With the retry cap 3, the loop is still running after five rounds,
  the notification has been processed five times, each time logged as attempt 1, and
  it is in the queue again with no attempts counted.
\<close>

theorem retry_cap_never_reached:
  "processQueue 5 defaultConfig startedService = None
   \<and> logged (afterRounds 5 defaultConfig startedService) =
       replicate 5 (ErrorProcessingNotification ''n1'' 1 ''WebSocket server not initialized'')
   \<and> map attempts (notificationQueue (afterRounds 5 defaultConfig startedService)) = [0]"
  by code_simp

text \<open>
  In that state the loop never returns: every round ends with the notification in the
  queue again, in a new item with no attempts counted.
\<close>

lemma retry_loop_never_returns: "processQueue fuel defaultConfig startedService = None"
  by (rule retry_loop_never_returns_aux[where t = 2000]) (simp_all add: startedService_eq)

subsection \<open>A submitted priority of 0\<close>

text \<open>
  Claim C10.  For a submission with priority 0, an API key that \<^verbatim>\<open>validateApiKey\<close>
  accepts, a channel and data, \<^verbatim>\<open>sendNotification\<close> does not throw \<^verbatim>\<open>ValidationError\<close>; and
  when the queue is below its maximum the call succeeds and leaves in the queue an
  item for the new notification whose priority, and whose notification's priority, is
  the default 5.
\<close>

theorem priority_zero_accepted_at_default:
  "validateApiKey (clientManager s) (apiKey_s sub) = Inr True \<and> channel_s sub \<noteq> []
     \<and> truthy (data_s sub) \<and> priority_s sub = Some 0 \<and> newId \<noteq> [] \<longrightarrow>
   (\<forall>m. fst (sendNotification cfg newId sub s) \<noteq> Inl (ValidationError m))
   \<and> (int (length (notificationQueue s)) < maxQueueSize cfg \<longrightarrow>
        fst (sendNotification cfg newId sub s) = Inr \<lparr> success = True, notificationId = newId \<rparr>
        \<and> (\<exists>item \<in> set (notificationQueue (snd (sendNotification cfg newId sub s))).
              id_q item = newId \<and> priority item = 5
              \<and> priority_n (notification item) = Some 5
              \<and> channel (notification item) = channel_s sub
              \<and> data (notification item) = data_s sub))"
  by (auto simp: sendNotification_def enqueue_def validateNotification_def jsOr_def
      newQueueItem_def set_sortQueue split: sum.splits)

theorem priority_zero_accepted_at_default_witness:
  "validateApiKey (clientManager idleService) (apiKey_s (updateSubmission\<lparr>priority_s := Some 0\<rparr>)) = Inr True
   \<and> int (length (notificationQueue idleService)) < maxQueueSize defaultConfig
   \<and> fst (sendNotification defaultConfig ''n7'' (updateSubmission\<lparr>priority_s := Some 0\<rparr>) idleService) =
       Inr \<lparr> success = True, notificationId = ''n7'' \<rparr>
   \<and> map priority (notificationQueue
        (snd (sendNotification defaultConfig ''n7'' (updateSubmission\<lparr>priority_s := Some 0\<rparr>) idleService))) = [5]"
proof -
  have v: "validateApiKey (clientManager idleService)
             (apiKey_s (updateSubmission\<lparr>priority_s := Some 0\<rparr>)) = Inr True"
    by code_simp
  have h: "channel_s (updateSubmission\<lparr>priority_s := Some 0\<rparr>) \<noteq> []
      \<and> truthy (data_s (updateSubmission\<lparr>priority_s := Some 0\<rparr>))
      \<and> priority_s (updateSubmission\<lparr>priority_s := Some 0\<rparr>) = Some 0 \<and> ''n7'' \<noteq> []"
    by (simp add: updateSubmission_def)
  have l: "int (length (notificationQueue idleService)) < maxQueueSize defaultConfig"
    by (simp add: idleService_def defaultConfig_def)
  have q: "map priority (notificationQueue
        (snd (sendNotification defaultConfig ''n7'' (updateSubmission\<lparr>priority_s := Some 0\<rparr>) idleService))) = [5]"
    by code_simp
  show ?thesis
    using priority_zero_accepted_at_default[where s = idleService
        and sub = "updateSubmission\<lparr>priority_s := Some 0\<rparr>" and newId = "''n7''"
        and cfg = defaultConfig] v h l q
    by simp
qed

end
